theory Spec2Isabelle
  imports Complex_Main
begin

section \<open>The logging callback of the MSAL configuration (src/src/authConfig.js)\<close>

text \<open>
  \<^verbatim>\<open>LogLevel\<close> is the enumeration of @azure/msal-browser
  (Error = 0, Warning = 1, Info = 2, Verbose = 3, Trace = 4); the callback's
  \<^verbatim>\<open>switch\<close> has a case for the first four and none for Trace.
\<close>

datatype LogLevel = Error | Warning | Info | Verbose | Trace

text \<open>The four methods of \<^verbatim>\<open>console\<close> that the callback calls.\<close>

datatype sink = console_error | console_info | console_debug | console_warn

text \<open>
  The console is the state the callback acts on: the sequence of calls made so far,
  each a sink with the message it received. The callback returns the console after
  its call.
\<close>

type_synonym console = "(sink \<times> string) list"

definition loggerCallback :: "LogLevel \<Rightarrow> string \<Rightarrow> bool \<Rightarrow> console \<Rightarrow> console" where
  "loggerCallback level message containsPii out =
     (if containsPii then out
      else (case level of
              Error \<Rightarrow> out @ [(console_error, message)]
            | Info \<Rightarrow> out @ [(console_info, message)]
            | Verbose \<Rightarrow> out @ [(console_debug, message)]
            | Warning \<Rightarrow> out @ [(console_warn, message)]
            | Trace \<Rightarrow> out))"

section \<open>JavaScript values used by the chart builder (src/unnamed/part_000)\<close>

text \<open>
  A JavaScript number is an exact rational or NaN. The rounding of IEEE doubles and
  the infinities are outside this model: where the program has the double nearest
  to a sum, a difference, a product or a quotient, the model has the exact value.
  Where the program uses
  \<^verbatim>\<open>undefined\<close> as a number it is NaN as well
  (\<^verbatim>\<open>+undefined\<close> is NaN, and \<^verbatim>\<open>Math.min\<close>,
  \<^verbatim>\<open>Math.abs\<close> and subtraction turn it into NaN).
\<close>

datatype jsnum = Num rat | NaN

definition isNaN :: "jsnum \<Rightarrow> bool" where
  "isNaN v = (case v of NaN \<Rightarrow> True | Num _ \<Rightarrow> False)"

fun js_add :: "jsnum \<Rightarrow> jsnum \<Rightarrow> jsnum" where
  "js_add (Num a) (Num b) = Num (a + b)"
| "js_add _ _ = NaN"

fun js_sub :: "jsnum \<Rightarrow> jsnum \<Rightarrow> jsnum" where
  "js_sub (Num a) (Num b) = Num (a - b)"
| "js_sub _ _ = NaN"

fun Math_min :: "jsnum \<Rightarrow> jsnum \<Rightarrow> jsnum" where
  "Math_min (Num a) (Num b) = Num (min a b)"
| "Math_min _ _ = NaN"

fun Math_abs :: "jsnum \<Rightarrow> jsnum" where
  "Math_abs (Num a) = Num \<bar>a\<bar>"
| "Math_abs NaN = NaN"

text \<open>\<^verbatim>\<open>v || 0\<close>: NaN and 0 are falsy, so the result is a number.\<close>

fun or_zero :: "jsnum \<Rightarrow> rat" where
  "or_zero (Num a) = a"
| "or_zero NaN = 0"

text \<open>
  \<^verbatim>\<open>v /= y\<close> at its one use, where \<^verbatim>\<open>y\<close> is a
  number that the guard \<^verbatim>\<open>if (y)\<close> has found non-zero.
\<close>

fun js_div :: "jsnum \<Rightarrow> rat \<Rightarrow> jsnum" where
  "js_div (Num a) y = Num (a / y)"
| "js_div NaN y = NaN"

text \<open>
  \<^verbatim>\<open>A[i]\<close> where the index may be \<^verbatim>\<open>undefined\<close>
  (\<open>None\<close>): the element, or \<^verbatim>\<open>undefined\<close> (\<open>None\<close>)
  when the index is undefined or out of range.
\<close>

definition js_at :: "'a list \<Rightarrow> nat option \<Rightarrow> 'a option" where
  "js_at A i = (case i of None \<Rightarrow> None
                | Some k \<Rightarrow> if k < length A then Some (A ! k) else None)"

text \<open>
  An exception: \<open>Thrown\<close> is what an accessor supplied by the caller threw,
  \<open>TypeError\<close> is raised by the JavaScript runtime.
\<close>

datatype error = Thrown string | TypeError string

section \<open>The parts of d3 that the chart builder calls\<close>

subsection \<open>d3.map, d3.InternSet, d3.rollup\<close>

text \<open>
  \<^verbatim>\<open>d3.map(values, mapper)\<close> is
  \<^verbatim>\<open>Array.from(values, (v, i) => mapper(v, i, values))\<close>: the mapper is
  called on each element with its index, in order, and an exception of the mapper
  ends the call.
\<close>

fun map_from :: "nat \<Rightarrow> ('r \<Rightarrow> nat \<Rightarrow> error + 'a) \<Rightarrow> 'r list \<Rightarrow> error + 'a list" where
  "map_from k f [] = Inr []"
| "map_from k f (d # ds) =
     (case f d k of
        Inl e \<Rightarrow> Inl e
      | Inr v \<Rightarrow> (case map_from (Suc k) f ds of
                   Inl e \<Rightarrow> Inl e
                 | Inr vs \<Rightarrow> Inr (v # vs)))"

definition d3_map :: "'r list \<Rightarrow> ('r \<Rightarrow> nat \<Rightarrow> error + 'a) \<Rightarrow> error + 'a list" where
  "d3_map values mapper = map_from 0 mapper values"

text \<open>
  \<^verbatim>\<open>new d3.InternSet(values)\<close>: the distinct values in the order of their
  first occurrence (a JavaScript Set keeps insertion order). The set is kept as
  that list; \<^verbatim>\<open>has\<close> is membership and \<^verbatim>\<open>size\<close> the length.
\<close>

definition InternSet :: "'a list \<Rightarrow> 'a list" where
  "InternSet values = foldl (\<lambda>s v. if v \<in> set s then s else s @ [v]) [] values"

text \<open>
  The grouping loop of d3.rollup (\<^verbatim>\<open>nest\<close> in d3-array): an InternMap from
  key to the array of the values with that key, keys in the order of their first
  occurrence, each array in the order of the input.
\<close>

fun group_push :: "'k \<Rightarrow> 'v \<Rightarrow> ('k \<times> 'v list) list \<Rightarrow> ('k \<times> 'v list) list" where
  "group_push k v [] = [(k, [v])]"
| "group_push k v ((k', vs) # gs) =
     (if k' = k then (k', vs @ [v]) # gs else (k', vs) # group_push k v gs)"

definition regroup :: "('v \<Rightarrow> 'k) \<Rightarrow> 'v list \<Rightarrow> ('k \<times> 'v list) list" where
  "regroup keyof values = foldl (\<lambda>gs v. group_push (keyof v) v gs) [] values"

text \<open>
  \<^verbatim>\<open>d3.rollup(values, reduce, key1, key2)\<close>: group by the first key, group each
  group by the second key, and reduce each innermost array.
\<close>

definition d3_rollup ::
  "'v list \<Rightarrow> ('v list \<Rightarrow> 'a) \<Rightarrow> ('v \<Rightarrow> 'k1) \<Rightarrow> ('v \<Rightarrow> 'k2) \<Rightarrow> ('k1 \<times> ('k2 \<times> 'a) list) list" where
  "d3_rollup values reduce key1 key2 =
     map (\<lambda>(k, vs). (k, map (\<lambda>(k2, ws). (k2, reduce ws)) (regroup key2 vs)))
         (regroup key1 values)"

subsection \<open>d3.stack\<close>

text \<open>
  One entry of the rolled-up map, as d3.stack receives it: a category with its
  map from series value to the retained record index.
\<close>

type_synonym 'y row = "'y \<times> (jsnum \<times> nat option) list"

text \<open>
  A stacked point \<^verbatim>\<open>[x1, x2]\<close> with its \<^verbatim>\<open>data\<close> property
  (the row it was computed from) and the \<^verbatim>\<open>i\<close> property the chart
  builder assigns afterwards (\<open>None\<close> is \<^verbatim>\<open>undefined\<close>).
  A series is the array of its points, one per row, with its \<^verbatim>\<open>key\<close>;
  its \<^verbatim>\<open>index\<close> property, which the builder never reads, is left out.
\<close>

record 'y point =
  pt_x1 :: jsnum
  pt_x2 :: jsnum
  pt_data :: "'y row"
  pt_i :: "nat option"

record 'y series =
  s_key :: jsnum
  s_points :: "'y point list"

text \<open>
  The stack orders and offsets of d3-shape that are embedded here:
  \<^verbatim>\<open>d3.stackOrderNone\<close> (the default of the chart builder) and
  \<^verbatim>\<open>d3.stackOrderReverse\<close>; \<^verbatim>\<open>d3.stackOffsetExpand\<close> (the default)
  and \<^verbatim>\<open>d3.stackOffsetNone\<close>.
\<close>

datatype stack_order = stackOrderNone | stackOrderReverse

datatype stack_offset = stackOffsetExpand | stackOffsetNone

fun apply_order :: "stack_order \<Rightarrow> 'y series list \<Rightarrow> nat list" where
  "apply_order stackOrderNone sz = [0..<length sz]"
| "apply_order stackOrderReverse sz = rev [0..<length sz]"

text \<open>
  The inner loop of \<^verbatim>\<open>stackOffsetNone\<close> over the points of two series:
  \<^verbatim>\<open>s1[j][1] += s1[j][0] = isNaN(s0[j][1]) ? s0[j][0] : s0[j][1]\<close>.
\<close>

definition shift_point :: "'y point \<Rightarrow> 'y point \<Rightarrow> 'y point" where
  "shift_point p0 p1 =
     (let b = (if isNaN (pt_x2 p0) then pt_x1 p0 else pt_x2 p0)
      in p1\<lparr>pt_x1 := b, pt_x2 := js_add (pt_x2 p1) b\<rparr>)"

text \<open>
  The outer loop of \<^verbatim>\<open>stackOffsetNone\<close>: \<^verbatim>\<open>s0\<close> is the series
  updated last, the list holds the remaining \<^verbatim>\<open>order[i]\<close>. The order is a
  permutation of the indices of the series, so every index is in range.
\<close>

fun none_loop :: "'y series list \<Rightarrow> 'y point list \<Rightarrow> nat list \<Rightarrow> 'y series list" where
  "none_loop sz s0 [] = sz"
| "none_loop sz s0 (k # ks) =
     (let s1 = map2 shift_point s0 (s_points (sz ! k))
      in none_loop (sz[k := (sz ! k)\<lparr>s_points := s1\<rparr>]) s1 ks)"

definition d3_stackOffsetNone :: "'y series list \<Rightarrow> nat list \<Rightarrow> 'y series list" where
  "d3_stackOffsetNone sz oz =
     (if \<not> 1 < length sz then sz
      else (case oz of [] \<Rightarrow> sz | k # ks \<Rightarrow> none_loop sz (s_points (sz ! k)) ks))"

text \<open>
  \<^verbatim>\<open>stackOffsetExpand\<close>: for each row \<^verbatim>\<open>j\<close> the sum \<^verbatim>\<open>y\<close> of
  \<^verbatim>\<open>series[i][j][1] || 0\<close> over the series, and when \<^verbatim>\<open>y\<close> is
  non-zero every \<^verbatim>\<open>series[i][j][1]\<close> is divided by it; then
  \<^verbatim>\<open>stackOffsetNone\<close>. The sums of all rows are computed first here (the rows
  are independent of each other), accumulating over the series in their order.
\<close>

definition row_sums :: "'y series list \<Rightarrow> rat list" where
  "row_sums sz =
     foldl (\<lambda>ys s. map2 (\<lambda>y p. y + or_zero (pt_x2 p)) ys (s_points s))
       (case sz of [] \<Rightarrow> [] | s # _ \<Rightarrow> map (\<lambda>_. 0) (s_points s)) sz"

definition expand_point :: "'y point \<Rightarrow> rat \<Rightarrow> 'y point" where
  "expand_point p y = (if y \<noteq> 0 then p\<lparr>pt_x2 := js_div (pt_x2 p) y\<rparr> else p)"

definition d3_stackOffsetExpand :: "'y series list \<Rightarrow> nat list \<Rightarrow> 'y series list" where
  "d3_stackOffsetExpand sz oz =
     (if \<not> 0 < length sz then sz
      else d3_stackOffsetNone
             (map (\<lambda>s. s\<lparr>s_points := map2 expand_point (s_points s) (row_sums sz)\<rparr>) sz) oz)"

fun apply_offset :: "stack_offset \<Rightarrow> 'y series list \<Rightarrow> nat list \<Rightarrow> 'y series list" where
  "apply_offset stackOffsetExpand sz oz = d3_stackOffsetExpand sz oz"
| "apply_offset stackOffsetNone sz oz = d3_stackOffsetNone sz oz"

text \<open>
  The value accessor the chart builder gives to the stack,
  \<^verbatim>\<open>([, I], z) => X[I.get(z)]\<close>, with the coercion \<^verbatim>\<open>+value(...)\<close>
  of d3.stack: a row with no record for the series value gives
  \<^verbatim>\<open>X[undefined]\<close>, which is undefined, hence NaN.
\<close>

definition stack_value :: "jsnum list \<Rightarrow> 'y row \<Rightarrow> jsnum \<Rightarrow> jsnum" where
  "stack_value X d k =
     (case js_at X (case map_of (snd d) k of None \<Rightarrow> None | Some i \<Rightarrow> i) of
        None \<Rightarrow> NaN
      | Some v \<Rightarrow> v)"

text \<open>
  \<^verbatim>\<open>d3.stack().keys(keys).value(value).order(order).offset(offset)(rows)\<close>:
  one series per key, one point \<^verbatim>\<open>[0, +value(d, key)]\<close> per row, then the
  order and the offset.
\<close>

definition stack_init :: "jsnum list \<Rightarrow> jsnum list \<Rightarrow> 'y row list \<Rightarrow> 'y series list" where
  "stack_init keys X rows =
     map (\<lambda>k. \<lparr>s_key = k,
               s_points = map (\<lambda>d. \<lparr>pt_x1 = Num 0, pt_x2 = stack_value X d k,
                                      pt_data = d, pt_i = None\<rparr>) rows\<rparr>) keys"

definition d3_stack ::
  "jsnum list \<Rightarrow> jsnum list \<Rightarrow> stack_order \<Rightarrow> stack_offset \<Rightarrow> 'y row list \<Rightarrow> 'y series list" where
  "d3_stack keys X order_by offset_by rows =
     (let sz = stack_init keys X rows
      in apply_offset offset_by sz (apply_order order_by sz))"

subsection \<open>d3.extent and the scales\<close>

text \<open>
  \<^verbatim>\<open>d3.extent(values)\<close>: the least and the greatest of the values that are
  numbers; NaN is skipped. With no number at all it is
  \<^verbatim>\<open>[undefined, undefined]\<close>, which the scale reads as NaN.
\<close>

fun extent_step :: "(rat \<times> rat) option \<Rightarrow> jsnum \<Rightarrow> (rat \<times> rat) option" where
  "extent_step e NaN = e"
| "extent_step None (Num v) = Some (v, v)"
| "extent_step (Some (lo, hi)) (Num v) =
     Some (if v < lo then v else lo, if hi < v then v else hi)"

definition d3_extent :: "jsnum list \<Rightarrow> jsnum \<times> jsnum" where
  "d3_extent values =
     (case foldl extent_step None values of
        None \<Rightarrow> (NaN, NaN)
      | Some (lo, hi) \<Rightarrow> (Num lo, Num hi))"

text \<open>\<^verbatim>\<open>series.flat(2)\<close>: every \<^verbatim>\<open>x1\<close> and \<^verbatim>\<open>x2\<close>, series by series.\<close>

definition flat2 :: "'y series list \<Rightarrow> jsnum list" where
  "flat2 sz = concat (map (\<lambda>s. concat (map (\<lambda>p. [pt_x1 p, pt_x2 p]) (s_points s))) sz)"

text \<open>
  \<^verbatim>\<open>d3.scaleLinear(domain, range)\<close> applied to a value (d3-scale's
  \<^verbatim>\<open>bimap\<close>, \<^verbatim>\<open>normalize\<close> and d3-interpolate's
  \<^verbatim>\<open>interpolateNumber\<close>). A value that is NaN or undefined is mapped to
  undefined; a domain with a NaN end gives NaN; a domain of extent zero maps every
  value to the middle of the range.
\<close>

definition d3_normalize :: "rat \<Rightarrow> rat \<Rightarrow> rat \<Rightarrow> rat" where
  "d3_normalize a b v = (if b - a \<noteq> 0 then (v - a) / (b - a) else 1 / 2)"

definition interpolateNumber :: "rat \<Rightarrow> rat \<Rightarrow> rat \<Rightarrow> rat" where
  "interpolateNumber a b t = a * (1 - t) + b * t"

fun d3_scaleLinear :: "jsnum \<times> jsnum \<Rightarrow> rat \<times> rat \<Rightarrow> jsnum \<Rightarrow> jsnum" where
  "d3_scaleLinear (Num d0, Num d1) (r0, r1) (Num v) =
     (if d1 < d0 then Num (interpolateNumber r1 r0 (d3_normalize d1 d0 v))
      else Num (interpolateNumber r0 r1 (d3_normalize d0 d1 v)))"
| "d3_scaleLinear _ _ _ = NaN"

text \<open>The position of a value in a list: the \<^verbatim>\<open>index\<close> map of d3's ordinal scale.\<close>

fun index_of :: "'a \<Rightarrow> 'a list \<Rightarrow> nat option" where
  "index_of v [] = None"
| "index_of v (u # us) = (if u = v then Some 0 else map_option Suc (index_of v us))"

text \<open>
  \<^verbatim>\<open>d3.scaleBand(domain, range).paddingInner(padding)\<close>: the
  \<^verbatim>\<open>rescale\<close> of d3-scale's band scale, with its defaults for the outer padding
  (0), the alignment (0.5) and rounding (off). The band scale keeps the domain, the
  start of the band of each domain value, and the bandwidth.
\<close>

record 'y band =
  b_domain :: "'y list"
  b_starts :: "rat list"
  b_bandwidth :: rat

definition d3_scaleBand :: "'y list \<Rightarrow> rat \<times> rat \<Rightarrow> rat \<Rightarrow> 'y band" where
  "d3_scaleBand dm rng padding =
     (let paddingInner = min 1 padding;
          domain = InternSet dm;
          n = of_nat (length domain);
          r0 = fst rng; r1 = snd rng;
          reverse = r1 < r0;
          start0 = (if reverse then r1 else r0);
          stop = (if reverse then r0 else r1);
          step = (stop - start0) / max 1 (n - paddingInner + 0 * 2);
          start = start0 + (stop - start0 - step * (n - paddingInner)) * (1 / 2);
          values = map (\<lambda>i. start + step * of_nat i) [0..<length domain]
      in \<lparr>b_domain = domain,
          b_starts = (if reverse then rev values else values),
          b_bandwidth = step * (1 - paddingInner)\<rparr>)"

text \<open>
  The band scale applied to a value that may be undefined: the start of its band,
  or undefined (\<open>None\<close>) for a value that is not in the domain.
\<close>

definition band_apply :: "'y band \<Rightarrow> 'y option \<Rightarrow> rat option" where
  "band_apply b v =
     (case v of None \<Rightarrow> None
      | Some c \<Rightarrow> (case index_of c (b_domain b) of None \<Rightarrow> None
                  | Some i \<Rightarrow> Some (b_starts b ! (i mod length (b_starts b)))))"

text \<open>
  \<^verbatim>\<open>d3.scaleOrdinal(domain, range)\<close> applied to a value: the range element at
  the position of the value in the domain, modulo the length of the range. A value
  that is not in the domain is appended to it; the builder applies the scale to
  members of the domain and to undefined only, so an unknown value always gets
  the position after the domain. An empty range gives undefined.
\<close>

definition ordinal_apply :: "jsnum list \<Rightarrow> string list \<Rightarrow> jsnum option \<Rightarrow> string option" where
  "ordinal_apply dm rng v =
     (let i = (case v of None \<Rightarrow> length dm
               | Some k \<Rightarrow> (case index_of k dm of None \<Rightarrow> length dm | Some j \<Rightarrow> j))
      in if rng = [] then None else Some (rng ! (i mod length rng)))"

section \<open>The chart builder StackedBarChartSVG (src/unnamed/part_000)\<close>

text \<open>
  The options of the builder. \<open>'r\<close> is the type of the records of the data,
  \<open>'y\<close> the type of the category values; quantities and series values are
  JavaScript numbers. An accessor is called with a record and its index and may
  throw. An option that the builder tests against \<^verbatim>\<open>undefined\<close> is an
  \<open>option\<close>. The \<^verbatim>\<open>title\<close> accessor is an option of the record
  that no definition below reads: the builder wraps it in a function (lines 85 to
  91) that nothing calls. Three options are fixed at their defaults and are not
  fields of the record: \<^verbatim>\<open>xType\<close> (the scale is d3.scaleLinear), and
  \<^verbatim>\<open>xFormat\<close>, \<^verbatim>\<open>xLabel\<close> (they only reach the ticks and the label
  of the axes, which d3-axis draws).
\<close>

record ('r, 'y) options =
  o_x :: "'r \<Rightarrow> nat \<Rightarrow> error + jsnum"
  o_y :: "'r \<Rightarrow> nat \<Rightarrow> error + 'y"
  o_z :: "'r \<Rightarrow> nat \<Rightarrow> error + jsnum"
  o_title :: "('r \<Rightarrow> nat \<Rightarrow> error + string) option"
  o_marginTop :: rat
  o_marginRight :: rat
  o_marginBottom :: rat
  o_marginLeft :: rat
  o_width :: rat
  o_height :: "rat option"
  o_xDomain :: "(jsnum \<times> jsnum) option"
  o_xRange :: "(rat \<times> rat) option"
  o_yDomain :: "'y list option"
  o_yRange :: "(rat \<times> rat) option"
  o_yPadding :: rat
  o_zDomain :: "jsnum list option"
  o_offset :: stack_offset
  o_order :: stack_order
  o_colors :: "string list"

text \<open>
  The defaults of the parameter list (lines 9 to 30) for given accessors;
  \<^verbatim>\<open>d3.schemeTableau10\<close> is the default palette.
\<close>

definition schemeTableau10 :: "string list" where
  "schemeTableau10 = [''#4e79a7'', ''#f28e2c'', ''#e15759'', ''#76b7b2'', ''#59a14f'',
                      ''#edc949'', ''#af7aa1'', ''#ff9da7'', ''#9c755f'', ''#bab0ab'']"

definition default_options ::
  "('r \<Rightarrow> nat \<Rightarrow> error + jsnum) \<Rightarrow> ('r \<Rightarrow> nat \<Rightarrow> error + 'y) \<Rightarrow> ('r \<Rightarrow> nat \<Rightarrow> error + jsnum)
   \<Rightarrow> ('r, 'y) options" where
  "default_options fx fy fz =
     \<lparr>o_x = fx, o_y = fy, o_z = fz, o_title = None,
      o_marginTop = 30, o_marginRight = 20, o_marginBottom = 0, o_marginLeft = 200,
      o_width = 640, o_height = None, o_xDomain = None, o_xRange = None,
      o_yDomain = None, o_yRange = None, o_yPadding = 1 / 10, o_zDomain = None,
      o_offset = stackOffsetExpand, o_order = stackOrderNone, o_colors = schemeTableau10\<rparr>"

text \<open>The default of \<^verbatim>\<open>xRange\<close> (line 21).\<close>

definition resolve_xRange :: "('r, 'y) options \<Rightarrow> rat \<times> rat" where
  "resolve_xRange opts =
     (case o_xRange opts of
        None \<Rightarrow> (o_marginLeft opts, o_width opts - o_marginRight opts)
      | Some r \<Rightarrow> r)"

text \<open>
  The values the builder computes before it draws (lines 33 to 75), under the
  names of its variables.
\<close>

record 'y layout =
  l_X :: "jsnum list"
  l_Y :: "'y list"
  l_Z :: "jsnum list"
  l_yDomain :: "'y list"
  l_zDomain :: "jsnum list"
  l_I :: "nat list"
  l_height :: rat
  l_yRange :: "rat \<times> rat"
  l_series :: "'y series list"
  l_xDomain :: "jsnum \<times> jsnum"

text \<open>The reducer of the rollup, \<^verbatim>\<open>([i]) => i\<close>: the first element of the group.\<close>

definition first_index :: "nat list \<Rightarrow> nat option" where
  "first_index g = (case g of [] \<Rightarrow> None | i # _ \<Rightarrow> Some i)"

text \<open>
  Line 72: \<^verbatim>\<open>Object.assign(d, { i: d.data[1].get(s.key) })\<close> for every point of
  every series. The arrays that \<^verbatim>\<open>s.map\<close> returns no longer have the
  \<^verbatim>\<open>key\<close> property, and the builder does not read it again; the model
  keeps \<open>s_key\<close> to name the series value a series belongs to.
\<close>

definition assign_i :: "'y series list \<Rightarrow> 'y series list" where
  "assign_i sz =
     map (\<lambda>s. s\<lparr>s_points :=
                  map (\<lambda>d. d\<lparr>pt_i := (case map_of (snd (pt_data d)) (s_key s) of
                                          None \<Rightarrow> None | Some i \<Rightarrow> i)\<rparr>)
                      (s_points s)\<rparr>) sz"

text \<open>
  Line 45: the indices whose category and series value are in the domains. Every
  index of \<open>I\<close> is below the length of \<open>Y\<close> and \<open>Z\<close>, so the key functions
  \<^verbatim>\<open>i => Y[i]\<close> and \<^verbatim>\<open>i => Z[i]\<close> of the rollup read inside the arrays.
\<close>

definition index_filter :: "nat \<Rightarrow> 'y list \<Rightarrow> jsnum list \<Rightarrow> 'y list \<Rightarrow> jsnum list \<Rightarrow> nat list" where
  "index_filter n Y Z yDomain zDomain =
     filter (\<lambda>i. Y ! i \<in> set yDomain \<and> Z ! i \<in> set zDomain) [0..<n]"

definition chart_layout :: "'r list \<Rightarrow> ('r, 'y) options \<Rightarrow> error + 'y layout" where
  "chart_layout data opts =
     (case d3_map data (o_x opts) of Inl e \<Rightarrow> Inl e | Inr X \<Rightarrow>
      (case d3_map data (o_y opts) of Inl e \<Rightarrow> Inl e | Inr Y \<Rightarrow>
       (case d3_map data (o_z opts) of Inl e \<Rightarrow> Inl e | Inr Z \<Rightarrow>
         (let yDomain = InternSet (case o_yDomain opts of None \<Rightarrow> Y | Some d \<Rightarrow> d);
              zDomain = InternSet (case o_zDomain opts of None \<Rightarrow> Z | Some d \<Rightarrow> d);
              I = index_filter (length X) Y Z yDomain zDomain;
              height = (case o_height opts of
                          None \<Rightarrow> of_nat (length yDomain) * 25 + o_marginTop opts + o_marginBottom opts
                        | Some h \<Rightarrow> h);
              yRange = (case o_yRange opts of
                          None \<Rightarrow> (height - o_marginBottom opts, o_marginTop opts)
                        | Some r \<Rightarrow> r);
              series = assign_i (d3_stack zDomain X (o_order opts) (o_offset opts)
                                   (d3_rollup I first_index (\<lambda>i. Y ! i) (\<lambda>i. Z ! i)));
              xDomain = (case o_xDomain opts of None \<Rightarrow> d3_extent (flat2 series) | Some d \<Rightarrow> d)
          in Inr \<lparr>l_X = X, l_Y = Y, l_Z = Z, l_yDomain = yDomain, l_zDomain = zDomain,
                  l_I = I, l_height = height, l_yRange = yRange, l_series = series,
                  l_xDomain = xDomain\<rparr>))))"

text \<open>
  The elements the builder draws. An attribute set from a function whose result
  is undefined is removed (d3-selection), which is \<open>None\<close>; a number, NaN
  included, is written as it is. Every rectangle and image keeps the datum it is
  bound to. \<open>g_key\<close> is not an attribute of the group element: it names the
  series value of the series the group is drawn from (the groups follow the order of
  the series domain).
\<close>

record 'y rect =
  r_x :: jsnum
  r_y :: "rat option"
  r_width :: jsnum
  r_height :: rat
  r_datum :: "'y point"

record 'y image =
  i_href :: "string option"
  i_x :: jsnum
  i_y :: "rat option"
  i_width :: jsnum
  i_height :: rat
  i_datum :: "'y point"

record 'y group =
  g_key :: jsnum
  g_fill :: "string option"
  g_rects :: "'y rect list"
  g_images :: "'y image list"

text \<open>
  The returned node: the view box, one group per series, and the translations of
  the two axis groups. The ticks and labels that d3-axis draws inside the axis
  groups are not embedded, nor is the colour scale attached to the node; drawing the
  axes is taken not to throw (the axis format is the default \<^verbatim>\<open>'%'\<close>).
\<close>

record 'y svg =
  svg_viewBox :: "rat \<times> rat \<times> rat \<times> rat"
  svg_groups :: "'y group list"
  svg_xAxis_translate :: "rat \<times> rat"
  svg_yAxis_translate :: "jsnum \<times> rat"

text \<open>
  Lines 118 to 122: the element of the three-element array at
  \<^verbatim>\<open>Z[i] - 1\<close>; any other index gives undefined.
\<close>

definition glyph :: "jsnum option \<Rightarrow> string option" where
  "glyph zv =
     (case zv of
        None \<Rightarrow> None
      | Some NaN \<Rightarrow> None
      | Some (Num v) \<Rightarrow>
          (if v - 1 = 0 then Some ''/images/sad-button.png''
           else if v - 1 = 1 then Some ''/images/neutral-button.png''
           else if v - 1 = 2 then Some ''/images/happy-button.png''
           else None))"

definition draw_rect ::
  "(jsnum \<Rightarrow> jsnum) \<Rightarrow> 'y band \<Rightarrow> 'y list \<Rightarrow> 'y point \<Rightarrow> 'y rect" where
  "draw_rect xScale yScale Y d =
     \<lparr>r_x = Math_min (xScale (pt_x1 d)) (xScale (pt_x2 d)),
      r_y = band_apply yScale (js_at Y (pt_i d)),
      r_width = Math_abs (js_sub (xScale (pt_x1 d)) (xScale (pt_x2 d))),
      r_height = b_bandwidth yScale,
      r_datum = d\<rparr>"

definition draw_image ::
  "(jsnum \<Rightarrow> jsnum) \<Rightarrow> 'y band \<Rightarrow> 'y list \<Rightarrow> jsnum list \<Rightarrow> 'y point \<Rightarrow> 'y image" where
  "draw_image xScale yScale Y Z d =
     \<lparr>i_href = glyph (js_at Z (pt_i d)),
      i_x = Math_min (xScale (pt_x1 d)) (xScale (pt_x2 d)),
      i_y = band_apply yScale (js_at Y (pt_i d)),
      i_width = Math_abs (js_sub (xScale (pt_x1 d)) (xScale (pt_x2 d))),
      i_height = b_bandwidth yScale,
      i_datum = d\<rparr>"

text \<open>
  One group per series (lines 100 to 127). The fill function
  \<^verbatim>\<open>([{ i }]) => color(Z[i])\<close> destructures the first point of the series: a
  series with no point makes it throw a TypeError.
\<close>

definition draw_group ::
  "(jsnum \<Rightarrow> jsnum) \<Rightarrow> 'y band \<Rightarrow> (jsnum option \<Rightarrow> string option) \<Rightarrow> 'y list \<Rightarrow> jsnum list
   \<Rightarrow> 'y series \<Rightarrow> error + 'y group" where
  "draw_group xScale yScale color Y Z s =
     (case s_points s of
        [] \<Rightarrow> Inl (TypeError ''Cannot destructure property i of undefined'')
      | d0 # _ \<Rightarrow>
          Inr \<lparr>g_key = s_key s,
               g_fill = color (js_at Z (pt_i d0)),
               g_rects = map (draw_rect xScale yScale Y) (s_points s),
               g_images = map (draw_image xScale yScale Y Z) (s_points s)\<rparr>)"

fun draw_groups :: "('s \<Rightarrow> error + 'g) \<Rightarrow> 's list \<Rightarrow> error + 'g list" where
  "draw_groups f [] = Inr []"
| "draw_groups f (s # ss) =
     (case f s of
        Inl e \<Rightarrow> Inl e
      | Inr g \<Rightarrow> (case draw_groups f ss of Inl e \<Rightarrow> Inl e | Inr gs \<Rightarrow> Inr (g # gs)))"

definition render :: "('r, 'y) options \<Rightarrow> 'y layout \<Rightarrow> error + 'y svg" where
  "render opts L =
     (let xScale = d3_scaleLinear (l_xDomain L) (resolve_xRange opts);
          yScale = d3_scaleBand (l_yDomain L) (l_yRange L) (o_yPadding opts);
          color = ordinal_apply (l_zDomain L) (o_colors opts)
      in (case draw_groups (draw_group xScale yScale color (l_Y L) (l_Z L)) (l_series L) of
            Inl e \<Rightarrow> Inl e
          | Inr gs \<Rightarrow>
              Inr \<lparr>svg_viewBox = (0, 0, o_width opts, l_height L),
                   svg_groups = gs,
                   svg_xAxis_translate = (0, o_marginTop opts),
                   svg_yAxis_translate = (xScale (Num 0), 0)\<rparr>))"

definition StackedBarChartSVG :: "'r list \<Rightarrow> ('r, 'y) options \<Rightarrow> error + 'y svg" where
  "StackedBarChartSVG data opts =
     (case chart_layout data opts of Inl e \<Rightarrow> Inl e | Inr L \<Rightarrow> render opts L)"

subsection \<open>Records of the scenarios\<close>

text \<open>
  The records of the scenarios, \<^verbatim>\<open>{cat, ser, q}\<close>, with the accessors
  \<^verbatim>\<open>d => d.q\<close>, \<^verbatim>\<open>d => d.cat\<close> and \<^verbatim>\<open>d => d.ser\<close>.
\<close>

record response =
  rec_cat :: string
  rec_ser :: jsnum
  rec_q :: jsnum

definition by_q :: "response \<Rightarrow> nat \<Rightarrow> error + jsnum" where
  "by_q d i = Inr (rec_q d)"

definition by_cat :: "response \<Rightarrow> nat \<Rightarrow> error + string" where
  "by_cat d i = Inr (rec_cat d)"

definition by_ser :: "response \<Rightarrow> nat \<Rightarrow> error + jsnum" where
  "by_ser d i = Inr (rec_ser d)"

definition response_options :: "(response, string) options" where
  "response_options = default_options by_q by_cat by_ser"

section \<open>Notions used in the statements and proofs\<close>

subsection \<open>Of the layout\<close>

text \<open>
  The rolled-up map that the builder gives to the stack (lines 65 to 70), and the
  two scales the rectangles are drawn with (lines 78 and 79).
\<close>

definition rollup_rows :: "'y layout \<Rightarrow> 'y row list" where
  "rollup_rows L = d3_rollup (l_I L) first_index (\<lambda>i. l_Y L ! i) (\<lambda>i. l_Z L ! i)"

definition xScale_of :: "('r, 'y) options \<Rightarrow> 'y layout \<Rightarrow> jsnum \<Rightarrow> jsnum" where
  "xScale_of opts L = d3_scaleLinear (l_xDomain L) (resolve_xRange opts)"

definition yScale_of :: "('r, 'y) options \<Rightarrow> 'y layout \<Rightarrow> 'y band" where
  "yScale_of opts L = d3_scaleBand (l_yDomain L) (l_yRange L) (o_yPadding opts)"

text \<open>
  The record index that the rollup keeps for a category and a series value (the first
  kept index with that pair), and the quantity of that record (NaN when there is
  none).
\<close>

definition retained :: "'y layout \<Rightarrow> 'y \<Rightarrow> jsnum \<Rightarrow> nat option" where
  "retained L c s = List.find (\<lambda>i. l_Y L ! i = c \<and> l_Z L ! i = s) (l_I L)"

definition quantity :: "'y layout \<Rightarrow> 'y \<Rightarrow> jsnum \<Rightarrow> jsnum" where
  "quantity L c s = (case retained L c s of None \<Rightarrow> NaN | Some i \<Rightarrow> l_X L ! i)"

text \<open>
  The total of a row: the sum \<^verbatim>\<open>y\<close> that stackOffsetExpand divides the row
  by. It adds \<^verbatim>\<open>series[i][j][1] || 0\<close> to 0, series after series in the
  order of the series domain: the retained quantities, NaN counted as 0.
\<close>

definition row_total :: "'y layout \<Rightarrow> 'y \<Rightarrow> rat" where
  "row_total L c = foldl (\<lambda>y s. y + or_zero (quantity L c s)) 0 (l_zDomain L)"

text \<open>
  What a stack offset makes of the quantity \<open>v\<close> of a segment in a row of total
  \<open>T\<close>: stackOffsetExpand divides it by a non-zero total and leaves it when
  the total is zero, stackOffsetNone leaves it.
\<close>

definition expanded :: "rat \<Rightarrow> jsnum \<Rightarrow> jsnum" where
  "expanded T v = (if T \<noteq> 0 then js_div v T else v)"

definition offset_value :: "stack_offset \<Rightarrow> rat \<Rightarrow> jsnum \<Rightarrow> jsnum" where
  "offset_value off T v = (case off of stackOffsetExpand \<Rightarrow> expanded T v | stackOffsetNone \<Rightarrow> v)"

text \<open>
  Where the segment after a point starts, as the loop of stackOffsetNone reads it
  (\<^verbatim>\<open>isNaN(s0[j][1]) ? s0[j][0] : s0[j][1]\<close>): at the end of the point, or at
  its start when the end is NaN. Points are laid edge to edge from \<open>b\<close> when the
  first starts at \<open>b\<close> and each of the others starts where this rule says, read
  on the point before it.
\<close>

definition base_of :: "'y point \<Rightarrow> jsnum" where
  "base_of p = (if isNaN (pt_x2 p) then pt_x1 p else pt_x2 p)"

fun edge_to_edge :: "jsnum \<Rightarrow> 'y point list \<Rightarrow> bool" where
  "edge_to_edge b [] = True"
| "edge_to_edge b (p # ps) = (pt_x1 p = b \<and> edge_to_edge (base_of p) ps)"

text \<open>An accessor throws on some record of the data.\<close>

definition throws :: "('r \<Rightarrow> nat \<Rightarrow> error + 'a) \<Rightarrow> 'r list \<Rightarrow> bool" where
  "throws f data = (\<exists>j < length data. isl (f (data ! j) j))"

subsection \<open>Of the returned node\<close>

text \<open>
  The rectangles drawn for a category and a series value: those of the groups of the
  series value whose datum belongs to the row of the category. The rectangles of
  the row of a category, over all groups. Whether a rectangle is bound to a record.
\<close>

definition segments_of :: "'y svg \<Rightarrow> 'y \<Rightarrow> jsnum \<Rightarrow> 'y rect list" where
  "segments_of art c s =
     concat (map (\<lambda>g. filter (\<lambda>r. fst (pt_data (r_datum r)) = c) (g_rects g))
                 (filter (\<lambda>g. g_key g = s) (svg_groups art)))"

definition row_rects :: "'y svg \<Rightarrow> 'y \<Rightarrow> 'y rect list" where
  "row_rects art c =
     concat (map (\<lambda>g. filter (\<lambda>r. fst (pt_data (r_datum r)) = c) (g_rects g)) (svg_groups art))"

definition has_record :: "'y rect \<Rightarrow> bool" where
  "has_record r = (pt_i (r_datum r) \<noteq> None)"

text \<open>
  The sum of JavaScript numbers, and the sum of the widths of the rectangles of a
  row that are bound to a record, in the result of a call of the builder.
\<close>

definition js_sum :: "jsnum list \<Rightarrow> jsnum" where
  "js_sum vs = foldl js_add (Num 0) vs"

definition row_length :: "error + 'y svg \<Rightarrow> 'y \<Rightarrow> error + jsnum" where
  "row_length res c =
     (case res of Inl e \<Rightarrow> Inl e
      | Inr art \<Rightarrow> Inr (js_sum (map r_width (filter has_record (row_rects art c)))))"

text \<open>
  Attributes of the result of a call, group by group: the widths and the y of the
  rectangles, the href of the images.
\<close>

definition rect_widths :: "error + 'y svg \<Rightarrow> error + jsnum list list" where
  "rect_widths res =
     (case res of Inl e \<Rightarrow> Inl e
      | Inr art \<Rightarrow> Inr (map (\<lambda>g. map r_width (g_rects g)) (svg_groups art)))"

definition rect_ys :: "error + 'y svg \<Rightarrow> error + rat option list list" where
  "rect_ys res =
     (case res of Inl e \<Rightarrow> Inl e
      | Inr art \<Rightarrow> Inr (map (\<lambda>g. map r_y (g_rects g)) (svg_groups art)))"

definition image_hrefs :: "error + 'y svg \<Rightarrow> error + string option list list" where
  "image_hrefs res =
     (case res of Inl e \<Rightarrow> Inl e
      | Inr art \<Rightarrow> Inr (map (\<lambda>g. map i_href (g_images g)) (svg_groups art)))"

subsection \<open>Of the proofs about the stack\<close>

text \<open>
  All series have \<open>m\<close> points; the key and the rows of a series, which the order
  and the offset leave as they are; the end of the point of series \<open>t\<close> in row
  \<open>j\<close>.
\<close>

definition rect_shape :: "nat \<Rightarrow> 'y series list \<Rightarrow> bool" where
  "rect_shape m sz = (\<forall>s \<in> set sz. length (s_points s) = m)"

definition skel :: "'y series \<Rightarrow> jsnum \<times> 'y row list" where
  "skel s = (s_key s, map pt_data (s_points s))"

definition raw_at :: "'y series list \<Rightarrow> nat \<Rightarrow> nat \<Rightarrow> jsnum" where
  "raw_at sz j t = pt_x2 (s_points (sz ! t) ! j)"

subsection \<open>Inputs of the scenarios and of the concrete calls\<close>

text \<open>
  Scenario 1 of the specification; a call with a category domain of four members;
  a call whose only record is outside the category domain; a record of series value
  4; two rows that each lack one series; a reversed pixel range; a quantity
  accessor and a title accessor that throw; two rows of one series; three records of
  which two share their category and series value; a row whose quantities are all
  zero.
\<close>

definition scenario1 :: "response list" where
  "scenario1 = [\<lparr>rec_cat = ''A'', rec_ser = Num 1, rec_q = Num 3\<rparr>,
                \<lparr>rec_cat = ''A'', rec_ser = Num 2, rec_q = Num 1\<rparr>]"

definition four_rows :: "(response, string) options" where
  "four_rows = response_options\<lparr>o_yDomain := Some [''A'', ''B'', ''C'', ''D'']\<rparr>"

definition only_A1 :: "response list" where
  "only_A1 = [\<lparr>rec_cat = ''A'', rec_ser = Num 1, rec_q = Num 3\<rparr>]"

definition domain_B :: "(response, string) options" where
  "domain_B = response_options\<lparr>o_yDomain := Some [''B'']\<rparr>"

definition series_four :: "response list" where
  "series_four = [\<lparr>rec_cat = ''A'', rec_ser = Num 4, rec_q = Num 3\<rparr>]"

definition sparse_rows :: "response list" where
  "sparse_rows = [\<lparr>rec_cat = ''A'', rec_ser = Num 1, rec_q = Num 3\<rparr>,
                  \<lparr>rec_cat = ''B'', rec_ser = Num 2, rec_q = Num 1\<rparr>]"

definition reversed_range :: "(response, string) options" where
  "reversed_range = response_options\<lparr>o_xRange := Some (620, 200)\<rparr>"

definition missing_q :: "response \<Rightarrow> nat \<Rightarrow> error + jsnum" where
  "missing_q d i = Inl (Thrown ''q is missing'')"

definition missing_title :: "response \<Rightarrow> nat \<Rightarrow> error + string" where
  "missing_title d i = Inl (Thrown ''title is missing'')"

definition two_rows :: "response list" where
  "two_rows = [\<lparr>rec_cat = ''A'', rec_ser = Num 1, rec_q = Num 3\<rparr>,
               \<lparr>rec_cat = ''B'', rec_ser = Num 1, rec_q = Num 1\<rparr>]"

definition collision :: "response list" where
  "collision = [\<lparr>rec_cat = ''A'', rec_ser = Num 1, rec_q = Num 3\<rparr>,
                \<lparr>rec_cat = ''A'', rec_ser = Num 1, rec_q = Num 5\<rparr>,
                \<lparr>rec_cat = ''A'', rec_ser = Num 2, rec_q = Num 1\<rparr>]"

definition zero_row :: "response list" where
  "zero_row = [\<lparr>rec_cat = ''A'', rec_ser = Num 1, rec_q = Num 3\<rparr>,
               \<lparr>rec_cat = ''A'', rec_ser = Num 2, rec_q = Num 1\<rparr>,
               \<lparr>rec_cat = ''B'', rec_ser = Num 1, rec_q = Num 0\<rparr>,
               \<lparr>rec_cat = ''B'', rec_ser = Num 2, rec_q = Num 0\<rparr>]"

section \<open>Facts about the embedded functions\<close>

lemma map_from_length: "map_from k f ds = Inr vs \<Longrightarrow> length vs = length ds"
  by (induction ds arbitrary: k vs) (auto split: sum.splits)

lemma d3_map_length: "d3_map ds f = Inr vs \<Longrightarrow> length vs = length ds"
  unfolding d3_map_def by (rule map_from_length)

lemma InternSet_snoc:
  "InternSet (xs @ [x]) = (if x \<in> set (InternSet xs) then InternSet xs else InternSet xs @ [x])"
  by (simp add: InternSet_def)

lemma InternSet_Nil: "InternSet [] = []"
  by (simp add: InternSet_def)

lemma set_InternSet: "set (InternSet xs) = set xs"
  by (induction xs rule: rev_induct) (auto simp: InternSet_snoc InternSet_Nil)

lemma distinct_InternSet: "distinct (InternSet xs)"
  by (induction xs rule: rev_induct) (auto simp: InternSet_snoc InternSet_Nil)

lemma InternSet_distinct: "distinct xs \<Longrightarrow> InternSet xs = xs"
  by (induction xs rule: rev_induct) (auto simp: InternSet_snoc InternSet_Nil set_InternSet)

lemma length_InternSet_card: "length (InternSet xs) = card (set xs)"
  using distinct_card [OF distinct_InternSet, of xs] by (simp add: set_InternSet)

lemma group_push_map:
  "distinct ks \<Longrightarrow>
   group_push k v (map (\<lambda>c. (c, g c)) ks) =
     (if k \<in> set ks then map (\<lambda>c. (c, if c = k then g c @ [v] else g c)) ks
      else map (\<lambda>c. (c, g c)) ks @ [(k, [v])])"
  by (induction ks) auto

lemma regroup_snoc: "regroup f (vs @ [v]) = group_push (f v) v (regroup f vs)"
  by (simp add: regroup_def)

lemma regroup_eq:
  "regroup f vs = map (\<lambda>c. (c, filter (\<lambda>v. f v = c) vs)) (InternSet (map f vs))"
proof (induction vs rule: rev_induct)
  case Nil
  then show ?case by (simp add: regroup_def InternSet_Nil)
next
  case (snoc v vs)
  have d: "distinct (InternSet (map f vs))" by (rule distinct_InternSet)
  show ?case
  proof (cases "f v \<in> set (InternSet (map f vs))")
    case True
    then show ?thesis
      using snoc group_push_map [OF d, of "f v" v "\<lambda>c. filter (\<lambda>v. f v = c) vs"]
      by (simp add: regroup_snoc InternSet_snoc)
  next
    case False
    then have "filter (\<lambda>u. f u = f v) vs = []"
      unfolding filter_empty_conv set_InternSet by (metis image_eqI set_map)
    moreover have "\<And>c. c \<in> set (InternSet (map f vs)) \<Longrightarrow> f v \<noteq> c"
      using False by auto
    ultimately show ?thesis
      using False snoc group_push_map [OF d, of "f v" v "\<lambda>c. filter (\<lambda>v. f v = c) vs"]
      by (simp add: regroup_snoc InternSet_snoc)
  qed
qed

lemma first_index_filter: "first_index (filter P xs) = List.find P xs"
  by (induction xs) (auto simp: first_index_def)

lemma shift_point_data: "pt_data (shift_point p0 p1) = pt_data p1"
  by (simp add: shift_point_def Let_def)

lemma map2_shift_data:
  "length s0 = length s \<Longrightarrow>
   map (pt_data \<circ> (\<lambda>(x, y). shift_point x y)) (zip s0 s) = map pt_data s"
  by (induction s0 s rule: list_induct2) (auto simp: shift_point_data)

lemma none_loop_skel:
  "rect_shape m sz \<Longrightarrow> length s0 = m \<Longrightarrow> \<forall>k \<in> set ks. k < length sz \<Longrightarrow>
   map skel (none_loop sz s0 ks) = map skel sz \<and> rect_shape m (none_loop sz s0 ks)"
proof (induction ks arbitrary: sz s0)
  case Nil
  then show ?case by simp
next
  case (Cons k ks)
  define s1 where "s1 = map2 shift_point s0 (s_points (sz ! k))"
  define sz' where "sz' = sz[k := (sz ! k)\<lparr>s_points := s1\<rparr>]"
  have k: "k < length sz" using Cons.prems by simp
  then have lk: "length (s_points (sz ! k)) = m"
    using Cons.prems(1) by (auto simp: rect_shape_def)
  have l1: "length s1 = m" using lk Cons.prems(2) by (simp add: s1_def)
  have sk: "skel ((sz ! k)\<lparr>s_points := s1\<rparr>) = skel (sz ! k)"
    using lk Cons.prems(2) by (simp add: skel_def s1_def map2_shift_data)
  have m1: "map skel sz' = map skel sz"
    unfolding sz'_def using sk k by (simp add: map_update list_update_same_conv)
  have r1: "rect_shape m sz'"
    unfolding sz'_def rect_shape_def
    using Cons.prems(1) l1 by (auto simp: rect_shape_def dest!: set_update_subset_insert [THEN subsetD])
  have "\<forall>k \<in> set ks. k < length sz'" using Cons.prems(3) by (simp add: sz'_def)
  from Cons.IH [OF r1 l1 this] m1
  show ?case by (simp add: s1_def sz'_def Let_def)
qed

lemma d3_stackOffsetNone_skel:
  "rect_shape m sz \<Longrightarrow> \<forall>k \<in> set oz. k < length sz \<Longrightarrow>
   map skel (d3_stackOffsetNone sz oz) = map skel sz \<and> rect_shape m (d3_stackOffsetNone sz oz)"
proof (cases oz)
  case Nil
  assume "rect_shape m sz"
  with Nil show ?thesis by (simp add: d3_stackOffsetNone_def)
next
  case (Cons k ks)
  assume r: "rect_shape m sz" and o: "\<forall>k \<in> set oz. k < length sz"
  then have "length (s_points (sz ! k)) = m" using Cons by (auto simp: rect_shape_def)
  from none_loop_skel [OF r this, of ks] o Cons r
  show ?thesis by (simp add: d3_stackOffsetNone_def)
qed

lemma length_row_sums_fold:
  "rect_shape m sz \<Longrightarrow> length ys = m \<Longrightarrow>
   length (foldl (\<lambda>ys s. map2 (\<lambda>y p. y + or_zero (pt_x2 p)) ys (s_points s)) ys sz) = m"
  by (induction sz arbitrary: ys) (auto simp: rect_shape_def)

lemma length_row_sums: "rect_shape m sz \<Longrightarrow> sz \<noteq> [] \<Longrightarrow> length (row_sums sz) = m"
  unfolding row_sums_def
  by (cases sz) (auto intro!: length_row_sums_fold simp: rect_shape_def)

lemma expand_point_data: "pt_data (expand_point p y) = pt_data p"
  by (simp add: expand_point_def)

lemma map2_expand_data:
  "length ps = length ys \<Longrightarrow>
   map (pt_data \<circ> (\<lambda>(x, y). expand_point x y)) (zip ps ys) = map pt_data ps"
  by (induction ps ys rule: list_induct2) (auto simp: expand_point_data)

lemma expand_map_skel:
  "rect_shape m sz \<Longrightarrow> length ys = m \<Longrightarrow>
   map skel (map (\<lambda>s. s\<lparr>s_points := map2 expand_point (s_points s) ys\<rparr>) sz) = map skel sz
   \<and> rect_shape m (map (\<lambda>s. s\<lparr>s_points := map2 expand_point (s_points s) ys\<rparr>) sz)"
  by (auto simp: rect_shape_def skel_def map2_expand_data)

lemma d3_stackOffsetExpand_skel:
  assumes r: "rect_shape m sz" and o: "\<forall>k \<in> set oz. k < length sz"
  shows "map skel (d3_stackOffsetExpand sz oz) = map skel sz
         \<and> rect_shape m (d3_stackOffsetExpand sz oz)"
proof (cases "sz = []")
  case True
  then show ?thesis using r by (simp add: d3_stackOffsetExpand_def)
next
  case False
  define sz' where "sz' = map (\<lambda>s. s\<lparr>s_points := map2 expand_point (s_points s) (row_sums sz)\<rparr>) sz"
  have e: "map skel sz' = map skel sz \<and> rect_shape m sz'"
    unfolding sz'_def by (rule expand_map_skel [OF r length_row_sums [OF r False]])
  have "\<forall>k \<in> set oz. k < length sz'" using o by (simp add: sz'_def)
  from d3_stackOffsetNone_skel [OF conjunct2 [OF e] this] e False
  show ?thesis by (simp add: d3_stackOffsetExpand_def sz'_def)
qed

lemma apply_order_range: "\<forall>k \<in> set (apply_order ord sz). k < length sz"
  by (cases ord) auto

lemma apply_offset_skel:
  "rect_shape m sz \<Longrightarrow> \<forall>k \<in> set oz. k < length sz \<Longrightarrow>
   map skel (apply_offset off sz oz) = map skel sz \<and> rect_shape m (apply_offset off sz oz)"
  by (cases off) (simp_all add: d3_stackOffsetExpand_skel d3_stackOffsetNone_skel)

lemma stack_init_shape: "rect_shape (length rows) (stack_init keys X rows)"
  by (simp add: rect_shape_def stack_init_def)

lemma stack_init_skel: "map skel (stack_init keys X rows) = map (\<lambda>k. (k, rows)) keys"
  by (simp add: stack_init_def skel_def comp_def)

lemma d3_stack_skel:
  "map skel (d3_stack keys X ord off rows) = map (\<lambda>k. (k, rows)) keys"
proof -
  have "map skel (apply_offset off (stack_init keys X rows)
                    (apply_order ord (stack_init keys X rows)))
        = map skel (stack_init keys X rows)"
    using apply_offset_skel stack_init_shape apply_order_range by blast
  then show ?thesis by (simp add: d3_stack_def Let_def stack_init_skel)
qed

lemma chart_layout_Inr:
  assumes "chart_layout data opts = Inr L"
  obtains X Y Z where
    "d3_map data (o_x opts) = Inr X" "d3_map data (o_y opts) = Inr Y"
    "d3_map data (o_z opts) = Inr Z"
    "l_X L = X" "l_Y L = Y" "l_Z L = Z"
    "l_yDomain L = InternSet (case o_yDomain opts of None \<Rightarrow> Y | Some d \<Rightarrow> d)"
    "l_zDomain L = InternSet (case o_zDomain opts of None \<Rightarrow> Z | Some d \<Rightarrow> d)"
    "l_I L = index_filter (length X) Y Z (l_yDomain L) (l_zDomain L)"
    "l_height L = (case o_height opts of
                     None \<Rightarrow> of_nat (length (l_yDomain L)) * 25 + o_marginTop opts + o_marginBottom opts
                   | Some h \<Rightarrow> h)"
    "l_yRange L = (case o_yRange opts of
                     None \<Rightarrow> (l_height L - o_marginBottom opts, o_marginTop opts)
                   | Some r \<Rightarrow> r)"
    "l_series L = assign_i (d3_stack (l_zDomain L) X (o_order opts) (o_offset opts) (rollup_rows L))"
    "l_xDomain L = (case o_xDomain opts of None \<Rightarrow> d3_extent (flat2 (l_series L)) | Some d \<Rightarrow> d)"
  using assms unfolding chart_layout_def rollup_rows_def
  by (auto simp: Let_def split: sum.splits cong: option.case_cong)

lemma find_filter: "List.find P (filter Q xs) = List.find (\<lambda>x. Q x \<and> P x) xs"
  by (induction xs) auto

lemma map_of_keyed:
  "map_of (map (\<lambda>k. (k, f k)) ks) k = (if k \<in> set ks then Some (f k) else None)"
  by (induction ks) auto

lemma d3_rollup_eq:
  "d3_rollup vs first_index f1 f2 =
     map (\<lambda>c. (c, map (\<lambda>s. (s, List.find (\<lambda>i. f1 i = c \<and> f2 i = s) vs))
                      (InternSet (map f2 (filter (\<lambda>i. f1 i = c) vs)))))
         (InternSet (map f1 vs))"
  by (simp add: d3_rollup_def regroup_eq first_index_filter find_filter comp_def)

lemma rollup_lookup:
  assumes "d \<in> set (d3_rollup vs first_index f1 f2)"
  shows "(case map_of (snd d) s of None \<Rightarrow> None | Some i \<Rightarrow> i)
         = List.find (\<lambda>i. f1 i = fst d \<and> f2 i = s) vs"
proof -
  from assms obtain c where d: "d = (c, map (\<lambda>s. (s, List.find (\<lambda>i. f1 i = c \<and> f2 i = s) vs))
                      (InternSet (map f2 (filter (\<lambda>i. f1 i = c) vs))))"
    by (auto simp: d3_rollup_eq)
  show ?thesis
  proof (cases "s \<in> set (InternSet (map f2 (filter (\<lambda>i. f1 i = c) vs)))")
    case True
    then show ?thesis by (simp add: d map_of_keyed)
  next
    case False
    then have "\<And>i. i \<in> set vs \<Longrightarrow> f1 i = c \<Longrightarrow> f2 i \<noteq> s"
      by (auto simp: set_InternSet)
    then have "List.find (\<lambda>i. f1 i = c \<and> f2 i = s) vs = None"
      by (auto simp: find_None_iff)
    with False show ?thesis by (simp add: d map_of_keyed)
  qed
qed

lemma rollup_keys_distinct: "distinct (map fst (d3_rollup vs first_index f1 f2))"
  by (simp add: d3_rollup_eq comp_def distinct_InternSet)

lemma rollup_keys: "set (map fst (d3_rollup vs first_index f1 f2)) = f1 ` set vs"
  by (simp add: d3_rollup_eq comp_def set_InternSet)

lemma assign_i_skel: "map skel (assign_i sz) = map skel sz"
  by (simp add: assign_i_def skel_def comp_def)

lemma series_skel:
  assumes "chart_layout data opts = Inr L"
  shows "map skel (l_series L) = map (\<lambda>k. (k, rollup_rows L)) (l_zDomain L)"
  using assms by (elim chart_layout_Inr) (simp add: assign_i_skel d3_stack_skel)

lemma series_keys:
  "chart_layout data opts = Inr L \<Longrightarrow> map s_key (l_series L) = l_zDomain L"
  using arg_cong [OF series_skel, of data opts L "map fst"]
  by (simp add: skel_def comp_def)

lemma series_member:
  assumes "chart_layout data opts = Inr L" "s \<in> set (l_series L)"
  shows "s_key s \<in> set (l_zDomain L)" "map pt_data (s_points s) = rollup_rows L"
proof -
  from assms(2) have "skel s \<in> set (map skel (l_series L))" by simp
  then have "skel s \<in> set (map (\<lambda>k. (k, rollup_rows L)) (l_zDomain L))"
    by (simp only: series_skel [OF assms(1)])
  then show "s_key s \<in> set (l_zDomain L)" "map pt_data (s_points s) = rollup_rows L"
    by (auto simp: skel_def)
qed

lemma assign_i_member:
  "s \<in> set (assign_i sz) \<Longrightarrow> p \<in> set (s_points s) \<Longrightarrow>
   pt_i p = (case map_of (snd (pt_data p)) (s_key s) of None \<Rightarrow> None | Some i \<Rightarrow> i)"
  by (auto simp: assign_i_def)

lemma point_index:
  assumes L: "chart_layout data opts = Inr L" and s: "s \<in> set (l_series L)"
    and p: "p \<in> set (s_points s)"
  shows "pt_i p = List.find (\<lambda>i. l_Y L ! i = fst (pt_data p) \<and> l_Z L ! i = s_key s) (l_I L)"
proof -
  have "pt_data p \<in> set (rollup_rows L)"
    using series_member(2) [OF L s] p by (metis image_eqI set_map)
  then have d: "pt_data p \<in> set (d3_rollup (l_I L) first_index (\<lambda>i. l_Y L ! i) (\<lambda>i. l_Z L ! i))"
    by (simp add: rollup_rows_def)
  have "s \<in> set (assign_i (d3_stack (l_zDomain L) (l_X L) (o_order opts) (o_offset opts) (rollup_rows L)))"
    using L s by (elim chart_layout_Inr) simp
  from assign_i_member [OF this p] rollup_lookup [OF d]
  show ?thesis by simp
qed

lemma draw_groups_all2D:
  "draw_groups f ss = Inr gs \<Longrightarrow> list_all2 (\<lambda>s g. f s = Inr g) ss gs"
  by (induction ss arbitrary: gs) (auto split: sum.splits)

lemma draw_groups_all2I:
  "list_all2 (\<lambda>s g. f s = Inr g) ss gs \<Longrightarrow> draw_groups f ss = Inr gs"
  by (induction ss gs rule: list_all2_induct) auto

lemma draw_groups_all2:
  "draw_groups f ss = Inr gs \<longleftrightarrow> list_all2 (\<lambda>s g. f s = Inr g) ss gs"
  using draw_groups_all2D draw_groups_all2I by blast

lemma builder_Inr:
  assumes "StackedBarChartSVG data opts = Inr art"
  obtains L where "chart_layout data opts = Inr L"
    "svg_viewBox art = (0, 0, o_width opts, l_height L)"
    "list_all2 (\<lambda>s g. draw_group (xScale_of opts L) (yScale_of opts L)
                         (ordinal_apply (l_zDomain L) (o_colors opts)) (l_Y L) (l_Z L) s = Inr g)
       (l_series L) (svg_groups art)"
    "svg_xAxis_translate art = (0, o_marginTop opts)"
    "svg_yAxis_translate art = (xScale_of opts L (Num 0), 0)"
proof -
  from assms obtain L where L: "chart_layout data opts = Inr L" and r: "render opts L = Inr art"
    by (auto simp: StackedBarChartSVG_def split: sum.splits)
  from r obtain gs where
    gs: "draw_groups (draw_group (xScale_of opts L) (yScale_of opts L)
                         (ordinal_apply (l_zDomain L) (o_colors opts)) (l_Y L) (l_Z L)) (l_series L) = Inr gs"
    and art: "art = \<lparr>svg_viewBox = (0, 0, o_width opts, l_height L), svg_groups = gs,
                     svg_xAxis_translate = (0, o_marginTop opts),
                     svg_yAxis_translate = (xScale_of opts L (Num 0), 0)\<rparr>"
    by (auto simp: render_def Let_def xScale_of_def yScale_of_def split: sum.splits)
  show thesis
    using that [OF L] gs art by (simp add: draw_groups_all2)
qed

lemma draw_group_Inr:
  assumes "draw_group xs ys col Y Z s = Inr g"
  shows "g_key g = s_key s" "g_rects g = map (draw_rect xs ys Y) (s_points s)"
    "g_images g = map (draw_image xs ys Y Z) (s_points s)" "s_points s \<noteq> []"
  using assms by (auto simp: draw_group_def split: list.splits)

lemma group_of_series:
  assumes "StackedBarChartSVG data opts = Inr art" "chart_layout data opts = Inr L"
    "g \<in> set (svg_groups art)"
  obtains s where "s \<in> set (l_series L)" "g_key g = s_key s"
    "g_rects g = map (draw_rect (xScale_of opts L) (yScale_of opts L) (l_Y L)) (s_points s)"
    "g_images g = map (draw_image (xScale_of opts L) (yScale_of opts L) (l_Y L) (l_Z L)) (s_points s)"
proof -
  from assms(1) obtain L' where L': "chart_layout data opts = Inr L'"
    and a: "list_all2 (\<lambda>s g. draw_group (xScale_of opts L') (yScale_of opts L')
                         (ordinal_apply (l_zDomain L') (o_colors opts)) (l_Y L') (l_Z L') s = Inr g)
       (l_series L') (svg_groups art)"
    by (rule builder_Inr)
  from L' assms(2) have LL: "L' = L" by simp
  from assms(3) obtain k where k: "k < length (svg_groups art)" "g = svg_groups art ! k"
    by (auto simp: in_set_conv_nth)
  have len: "length (l_series L) = length (svg_groups art)"
    using a LL by (simp add: list_all2_lengthD)
  have dg: "draw_group (xScale_of opts L) (yScale_of opts L)
        (ordinal_apply (l_zDomain L) (o_colors opts)) (l_Y L) (l_Z L) (l_series L ! k) = Inr g"
    using list_all2_nthD2 [OF a k(1)] k(2) LL by simp
  have mem: "l_series L ! k \<in> set (l_series L)" using k(1) len by simp
  show thesis
    by (rule that [OF mem draw_group_Inr(1) [OF dg] draw_group_Inr(2) [OF dg]
          draw_group_Inr(3) [OF dg]])
qed

lemma Math_abs_cases: "Math_abs v = NaN \<or> (\<exists>w. Math_abs v = Num w \<and> 0 \<le> w)"
  by (cases v) auto

lemma map_from_throws:
  "isl (map_from k f ds) \<longleftrightarrow> (\<exists>j < length ds. isl (f (ds ! j) (k + j)))"
proof (induction ds arbitrary: k)
  case Nil
  then show ?case by simp
next
  case (Cons d ds)
  show ?case
  proof (cases "f d k")
    case (Inl e)
    then show ?thesis by auto
  next
    case (Inr v)
    have "(\<exists>j < length (d # ds). isl (f ((d # ds) ! j) (k + j)))
          \<longleftrightarrow> (\<exists>j < length ds. isl (f (ds ! j) (Suc k + j)))"
      using Inr by (auto simp: less_Suc_eq_0_disj)
    with Inr Cons.IH [of "Suc k"] show ?thesis
      by (auto split: sum.splits)
  qed
qed

lemma d3_map_throws: "isl (d3_map data f) \<longleftrightarrow> throws f data"
  by (simp add: d3_map_def throws_def map_from_throws)

lemma chart_layout_throws:
  "isl (chart_layout data opts) \<longleftrightarrow>
     throws (o_x opts) data \<or> throws (o_y opts) data \<or> throws (o_z opts) data"
  unfolding d3_map_throws [symmetric] chart_layout_def
  by (auto simp: Let_def split: sum.splits)

lemma builder_throws:
  "throws (o_x opts) data \<or> throws (o_y opts) data \<or> throws (o_z opts) data
   \<Longrightarrow> isl (StackedBarChartSVG data opts)"
  using chart_layout_throws [of data opts]
  by (auto simp: StackedBarChartSVG_def split: sum.splits)

lemma apply_offset_Nil: "apply_offset off [] oz = []"
  by (cases off) (simp_all add: d3_stackOffsetExpand_def d3_stackOffsetNone_def)

lemma chart_layout_empty:
  assumes "o_yDomain opts = None" "o_zDomain opts = None"
  shows "\<exists>L. chart_layout [] opts = Inr L \<and> l_series L = [] \<and> l_yDomain L = []"
  using assms
  by (simp add: chart_layout_def d3_map_def InternSet_def
      index_filter_def d3_rollup_def regroup_def d3_stack_def stack_init_def
      apply_offset_Nil assign_i_def Let_def)

lemma builder_empty:
  assumes "o_height opts = None" "o_yDomain opts = None" "o_zDomain opts = None"
  shows "\<exists>art. StackedBarChartSVG [] opts = Inr art
           \<and> svg_viewBox art = (0, 0, o_width opts, o_marginTop opts + o_marginBottom opts)
           \<and> svg_groups art = []"
proof -
  from chart_layout_empty [OF assms(2,3)] obtain L where
    L: "chart_layout [] opts = Inr L" "l_series L = []" "l_yDomain L = []"
    by blast
  have "l_height L = o_marginTop opts + o_marginBottom opts"
    using L(1) assms(1) L(3) by (elim chart_layout_Inr) simp
  then show ?thesis
    using L by (simp add: StackedBarChartSVG_def render_def Let_def)
qed

lemma chart_layout_fields:
  assumes "chart_layout data opts = Inr L"
  shows "d3_map data (o_x opts) = Inr (l_X L)"
    and "d3_map data (o_y opts) = Inr (l_Y L)"
    and "d3_map data (o_z opts) = Inr (l_Z L)"
    and "l_yDomain L = InternSet (case o_yDomain opts of None \<Rightarrow> l_Y L | Some d \<Rightarrow> d)"
    and "l_zDomain L = InternSet (case o_zDomain opts of None \<Rightarrow> l_Z L | Some d \<Rightarrow> d)"
    and "l_I L = index_filter (length (l_X L)) (l_Y L) (l_Z L) (l_yDomain L) (l_zDomain L)"
    and "l_height L = (case o_height opts of
                     None \<Rightarrow> of_nat (length (l_yDomain L)) * 25 + o_marginTop opts + o_marginBottom opts
                   | Some h \<Rightarrow> h)"
    and "l_yRange L = (case o_yRange opts of
                     None \<Rightarrow> (l_height L - o_marginBottom opts, o_marginTop opts)
                   | Some r \<Rightarrow> r)"
    and "l_series L = assign_i (d3_stack (l_zDomain L) (l_X L) (o_order opts) (o_offset opts)
                                  (rollup_rows L))"
    and "l_xDomain L = (case o_xDomain opts of None \<Rightarrow> d3_extent (flat2 (l_series L)) | Some d \<Rightarrow> d)"
  using assms unfolding chart_layout_def rollup_rows_def
  by (auto simp: Let_def split: sum.splits cong: option.case_cong)

lemma Math_abs_NaN: "Math_abs (js_sub a b) = NaN \<longleftrightarrow> a = NaN \<or> b = NaN"
  by (cases a; cases b) auto

lemma index_of_nth: "distinct xs \<Longrightarrow> i < length xs \<Longrightarrow> index_of (xs ! i) xs = Some i"
proof (induction xs arbitrary: i)
  case Nil
  then show ?case by simp
next
  case (Cons x xs)
  then show ?case by (cases i) auto
qed

lemma band_default:
  fixes mt p :: rat
  assumes d: "distinct dm" and n: "2 \<le> length dm"
  defines "step \<equiv> of_nat (length dm) * 25 / (of_nat (length dm) - min 1 p)"
  shows "d3_scaleBand dm (of_nat (length dm) * 25 + mt, mt) p
         = \<lparr>b_domain = dm,
            b_starts = rev (map (\<lambda>i. mt + step * of_nat i) [0..<length dm]),
            b_bandwidth = step * (1 - min 1 p)\<rparr>"
proof -
  have n2: "(2::rat) \<le> of_nat (length dm)" using n by (metis of_nat_numeral of_nat_le_iff)
  then have m: "max 1 (of_nat (length dm) - min 1 p) = of_nat (length dm) - min 1 p"
    by (simp add: max_def min_def)
  have ne: "of_nat (length dm) - min 1 p \<noteq> 0" using n2 by (simp add: min_def)
  have nz: "dm \<noteq> []" using n by (cases dm) simp_all
  have rv: "mt < of_nat (length dm) * 25 + mt" using nz by simp
  have st: "of_nat (length dm) * 25 + mt - mt - step * (of_nat (length dm) - min 1 p) = 0"
    using ne by (simp add: step_def)
  show ?thesis
    unfolding d3_scaleBand_def Let_def InternSet_distinct [OF d]
    using rv m st nz by (simp add: step_def)
qed

lemma band_apply_default:
  fixes mt p :: rat
  assumes d: "distinct dm" and n: "2 \<le> length dm" and i: "i < length dm"
  shows "band_apply (d3_scaleBand dm (of_nat (length dm) * 25 + mt, mt) p) (Some (dm ! i))
         = Some (mt + of_nat (length dm) * 25 / (of_nat (length dm) - min 1 p)
                      * of_nat (length dm - 1 - i))"
proof -
  have "(length dm - Suc i) < length dm" using i by simp
  then show ?thesis
    unfolding band_default [OF d n] band_apply_def
    using i by (simp add: index_of_nth [OF d i] rev_nth)
qed

lemma layout_default_band:
  assumes L: "chart_layout data opts = Inr L"
    and h: "o_height opts = None" and r: "o_yRange opts = None"
  shows "yScale_of opts L
         = d3_scaleBand (l_yDomain L)
             (of_nat (length (l_yDomain L)) * 25 + o_marginTop opts, o_marginTop opts)
             (o_yPadding opts)"
    and "l_height L - o_marginBottom opts = of_nat (length (l_yDomain L)) * 25 + o_marginTop opts"
    and "l_yRange L = (l_height L - o_marginBottom opts, o_marginTop opts)"
    and "distinct (l_yDomain L)"
  using chart_layout_fields(4,7,8) [OF L] h r
  by (simp_all add: yScale_of_def distinct_InternSet)

lemma shift_point_eq:
  "shift_point p0 p1 = p1\<lparr>pt_x1 := base_of p0, pt_x2 := js_add (pt_x2 p1) (base_of p0)\<rparr>"
  by (simp add: shift_point_def base_of_def Let_def)

lemma base_of_shift:
  "base_of p0 = Num b \<Longrightarrow> base_of (shift_point p0 p1) = Num (b + or_zero (pt_x2 p1))"
  by (cases "pt_x2 p1") (simp_all add: shift_point_eq base_of_def isNaN_def)

lemma none_loop_upt:
  assumes "rect_shape m sz" "length s0 = m" "j < m" "base_of (s0 ! j) = Num b" "k \<le> length sz"
  shows "(\<forall>l<k. none_loop sz s0 [k..<length sz] ! l = sz ! l) \<and>
         (\<forall>l. k \<le> l \<and> l < length sz \<longrightarrow>
            s_points (none_loop sz s0 [k..<length sz] ! l) ! j
            = (s_points (sz ! l) ! j)
                \<lparr>pt_x1 := Num (b + (\<Sum>t = k..<l. or_zero (raw_at sz j t))),
                 pt_x2 := js_add (raw_at sz j l)
                            (Num (b + (\<Sum>t = k..<l. or_zero (raw_at sz j t))))\<rparr>)"
  using assms
proof (induction "length sz - k" arbitrary: k sz s0 b)
  case 0
  then show ?case by auto
next
  case (Suc d)
  then have k: "k < length sz" by simp
  define s1 where "s1 = map2 shift_point s0 (s_points (sz ! k))"
  define sz' where "sz' = sz[k := (sz ! k)\<lparr>s_points := s1\<rparr>]"
  have lk: "length (s_points (sz ! k)) = m"
    using Suc.prems(1) k by (auto simp: rect_shape_def)
  have l1: "length s1 = m" using lk Suc.prems(2) by (simp add: s1_def)
  have s1j: "s1 ! j = shift_point (s0 ! j) (s_points (sz ! k) ! j)"
    using lk Suc.prems(2,3) by (simp add: s1_def)
  have r1: "rect_shape m sz'"
    unfolding sz'_def rect_shape_def
    using Suc.prems(1) l1 by (auto simp: rect_shape_def dest!: set_update_subset_insert [THEN subsetD])
  have len: "length sz' = length sz" by (simp add: sz'_def)
  have b1: "base_of (s1 ! j) = Num (b + or_zero (raw_at sz j k))"
    unfolding s1j raw_at_def by (rule base_of_shift [OF Suc.prems(4)])
  have d: "d = length sz' - Suc k" using Suc.hyps(2) len by simp
  have unf: "none_loop sz s0 [k..<length sz] = none_loop sz' s1 [Suc k..<length sz']"
    using k by (simp add: upt_conv_Cons s1_def sz'_def Let_def)
  have raw': "\<And>t. t \<noteq> k \<Longrightarrow> raw_at sz' j t = raw_at sz j t"
    by (simp add: raw_at_def sz'_def)
  note IH = Suc.hyps(1) [OF d r1 l1 Suc.prems(3) b1, unfolded len]
  have IH1: "\<And>l. l < Suc k \<Longrightarrow> none_loop sz' s1 [Suc k..<length sz] ! l = sz' ! l"
    using IH k by simp
  have IH2: "\<And>l. Suc k \<le> l \<Longrightarrow> l < length sz \<Longrightarrow>
      s_points (none_loop sz' s1 [Suc k..<length sz] ! l) ! j
            = (s_points (sz' ! l) ! j)
                \<lparr>pt_x1 := Num (b + or_zero (raw_at sz j k) + (\<Sum>t = Suc k..<l. or_zero (raw_at sz' j t))),
                 pt_x2 := js_add (raw_at sz' j l)
                            (Num (b + or_zero (raw_at sz j k) + (\<Sum>t = Suc k..<l. or_zero (raw_at sz' j t))))\<rparr>"
    using IH k by simp
  show ?case
  proof (intro conjI allI impI)
    fix l assume "l < k"
    then show "none_loop sz s0 [k..<length sz] ! l = sz ! l"
      unfolding unf len using IH1 [of l] by (simp add: sz'_def)
  next
    fix l assume l: "k \<le> l \<and> l < length sz"
    show "s_points (none_loop sz s0 [k..<length sz] ! l) ! j
            = (s_points (sz ! l) ! j)
                \<lparr>pt_x1 := Num (b + (\<Sum>t = k..<l. or_zero (raw_at sz j t))),
                 pt_x2 := js_add (raw_at sz j l)
                            (Num (b + (\<Sum>t = k..<l. or_zero (raw_at sz j t))))\<rparr>"
    proof (cases "l = k")
      case True
      have "s_points (none_loop sz' s1 [Suc k..<length sz] ! k) ! j = s1 ! j"
        using IH1 [of k] k by (simp add: sz'_def)
      then show ?thesis
        unfolding unf len True s1j
        using Suc.prems(4) by (simp add: shift_point_eq raw_at_def)
    next
      case False
      with l have l': "Suc k \<le> l" "l < length sz" "k < l" by simp_all
      have s: "(\<Sum>t = Suc k..<l. or_zero (raw_at sz' j t)) = (\<Sum>t = Suc k..<l. or_zero (raw_at sz j t))"
        by (rule sum.cong) (simp_all add: raw')
      have s2: "(\<Sum>t = k..<l. or_zero (raw_at sz j t))
                = or_zero (raw_at sz j k) + (\<Sum>t = Suc k..<l. or_zero (raw_at sz j t))"
        using l'(3) by (simp add: sum.atLeast_Suc_lessThan)
      have e: "sz' ! l = sz ! l" using False by (simp add: sz'_def)
      show ?thesis
        unfolding unf len IH2 [OF l'(1,2)] s s2 raw' [OF False] e
        by (simp add: add.assoc)
    qed
  qed
qed

lemma js_add_zero: "js_add v (Num 0) = v"
  by (cases v) simp_all

lemma stackOffsetNone_point:
  assumes r: "rect_shape m sz" and j: "j < m" and k: "k < length sz"
    and z: "pt_x1 (s_points (sz ! 0) ! j) = Num 0"
  shows "s_points (d3_stackOffsetNone sz [0..<length sz] ! k) ! j
         = (s_points (sz ! k) ! j)
             \<lparr>pt_x1 := Num (\<Sum>t = 0..<k. or_zero (raw_at sz j t)),
              pt_x2 := js_add (raw_at sz j k) (Num (\<Sum>t = 0..<k. or_zero (raw_at sz j t)))\<rparr>"
proof (cases "1 < length sz")
  case False
  with k have k0: "k = 0" by simp
  from False have "d3_stackOffsetNone sz [0..<length sz] = sz"
    by (simp add: d3_stackOffsetNone_def)
  then show ?thesis
    using z by (simp add: k0 raw_at_def js_add_zero)
next
  case True
  define s0 where "s0 = s_points (sz ! 0)"
  have "0 < length sz" using True by linarith
  then have "[0..<length sz] = 0 # [Suc 0..<length sz]" by (rule upt_conv_Cons)
  then have e: "[0..<length sz] = 0 # [1..<length sz]" by (simp only: One_nat_def)
  have u: "d3_stackOffsetNone sz [0..<length sz] = none_loop sz s0 [1..<length sz]"
    using True unfolding d3_stackOffsetNone_def s0_def by (subst e) simp
  have "sz ! 0 \<in> set sz" using True by (intro nth_mem) linarith
  then have l0: "length s0 = m" using r by (simp add: rect_shape_def s0_def)
  have b: "base_of (s0 ! j) = Num (or_zero (raw_at sz j 0))"
    using z by (cases "pt_x2 (s_points (sz ! 0) ! j)")
      (simp_all add: base_of_def s0_def raw_at_def isNaN_def)
  have one: "1 \<le> length sz" using True by simp
  note nl = none_loop_upt [OF r l0 j b one]
  show ?thesis
  proof (cases "k = 0")
    case True
    have "none_loop sz s0 [1..<length sz] ! 0 = sz ! 0" using nl by simp
    then show ?thesis using z by (simp add: u True raw_at_def js_add_zero)
  next
    case False
    then have k1: "1 \<le> k \<and> k < length sz" "0 < k" using k by simp_all
    have s: "(\<Sum>t = 0..<k. or_zero (raw_at sz j t))
             = or_zero (raw_at sz j 0) + (\<Sum>t = 1..<k. or_zero (raw_at sz j t))"
      using k1(2) by (simp add: sum.atLeast_Suc_lessThan)
    from nl k1(1) show ?thesis unfolding u s by blast
  qed
qed

lemma row_sums_fold_nth:
  "rect_shape m sz \<Longrightarrow> length ys = m \<Longrightarrow> j < m \<Longrightarrow>
   foldl (\<lambda>ys s. map2 (\<lambda>y p. y + or_zero (pt_x2 p)) ys (s_points s)) ys sz ! j
   = ys ! j + sum_list (map (\<lambda>s. or_zero (pt_x2 (s_points s ! j))) sz)"
proof (induction sz arbitrary: ys)
  case Nil
  then show ?case by simp
next
  case (Cons s sz)
  have ls: "length (s_points s) = m" and r: "rect_shape m sz"
    using Cons.prems(1) by (auto simp: rect_shape_def)
  have l: "length (map2 (\<lambda>y p. y + or_zero (pt_x2 p)) ys (s_points s)) = m"
    using ls Cons.prems(2) by simp
  show ?case
    using Cons.IH [OF r l Cons.prems(3)] ls Cons.prems(2,3)
    by (simp add: add.assoc)
qed

lemma row_sums_nth:
  assumes r: "rect_shape m sz" and j: "j < m" and ne: "sz \<noteq> []"
  shows "row_sums sz ! j = (\<Sum>t = 0..<length sz. or_zero (raw_at sz j t))"
proof (cases sz)
  case Nil
  with ne show ?thesis by simp
next
  case (Cons s ss)
  have l: "length (map (\<lambda>_. 0::rat) (s_points s)) = m"
    using r Cons by (simp add: rect_shape_def)
  have "row_sums sz ! j = sum_list (map (\<lambda>s. or_zero (pt_x2 (s_points s ! j))) sz)"
    using row_sums_fold_nth [OF r l j] l j unfolding row_sums_def Cons by simp
  also have "\<dots> = (\<Sum>t = 0..<length sz. or_zero (raw_at sz j t))"
    unfolding raw_at_def by (simp add: sum_list_sum_nth)
  finally show ?thesis .
qed

lemma expand_raw:
  assumes r: "rect_shape m sz" and j: "j < m" and t: "t < length sz"
  defines "sz' \<equiv> map (\<lambda>s. s\<lparr>s_points := map2 expand_point (s_points s) (row_sums sz)\<rparr>) sz"
  shows "raw_at sz' j t = expanded (\<Sum>t = 0..<length sz. or_zero (raw_at sz j t)) (raw_at sz j t)"
    and "pt_x1 (s_points (sz' ! t) ! j) = pt_x1 (s_points (sz ! t) ! j)"
    and "pt_data (s_points (sz' ! t) ! j) = pt_data (s_points (sz ! t) ! j)"
    and "pt_i (s_points (sz' ! t) ! j) = pt_i (s_points (sz ! t) ! j)"
proof -
  have ne: "sz \<noteq> []" using t by auto
  have lt: "length (s_points (sz ! t)) = m" using r t by (auto simp: rect_shape_def)
  have lr: "length (row_sums sz) = m" by (rule length_row_sums [OF r ne])
  have pt: "s_points (sz' ! t) ! j
        = expand_point (s_points (sz ! t) ! j) (\<Sum>t = 0..<length sz. or_zero (raw_at sz j t))"
    unfolding sz'_def row_sums_nth [OF r j ne, symmetric]
    using t lt lr j by simp
  show "raw_at sz' j t = expanded (\<Sum>t = 0..<length sz. or_zero (raw_at sz j t)) (raw_at sz j t)"
    unfolding raw_at_def [of sz'] pt by (simp add: expand_point_def expanded_def raw_at_def)
  show "pt_x1 (s_points (sz' ! t) ! j) = pt_x1 (s_points (sz ! t) ! j)"
    unfolding pt by (simp add: expand_point_def)
  show "pt_data (s_points (sz' ! t) ! j) = pt_data (s_points (sz ! t) ! j)"
    unfolding pt by (simp add: expand_point_def)
  show "pt_i (s_points (sz' ! t) ! j) = pt_i (s_points (sz ! t) ! j)"
    unfolding pt by (simp add: expand_point_def)
qed

lemma stack_init_facts:
  assumes "k < length keys" "j < length rows"
  shows "raw_at (stack_init keys X rows) j k = stack_value X (rows ! j) (keys ! k)"
    and "pt_x1 (s_points (stack_init keys X rows ! k) ! j) = Num 0"
    and "pt_data (s_points (stack_init keys X rows ! k) ! j) = rows ! j"
    and "length (stack_init keys X rows) = length keys"
  using assms by (simp_all add: stack_init_def raw_at_def)

lemma stack_point_OrderNone:
  fixes X :: "jsnum list" and rows :: "'y row list" and keys :: "jsnum list"
    and off :: stack_offset and k j :: nat
  assumes k: "k < length keys" and j: "j < length rows"
  defines "T \<equiv> (\<Sum>t = 0..<length keys. or_zero (stack_value X (rows ! j) (keys ! t)))"
  defines "S \<equiv> (\<Sum>t = 0..<k. or_zero (offset_value off T (stack_value X (rows ! j) (keys ! t))))"
  shows "pt_x1 (s_points (d3_stack keys X stackOrderNone off rows ! k) ! j) = Num S"
    and "pt_x2 (s_points (d3_stack keys X stackOrderNone off rows ! k) ! j)
         = js_add (offset_value off T (stack_value X (rows ! j) (keys ! k))) (Num S)"
proof -
  define sz where "sz = stack_init keys X rows"
  have r: "rect_shape (length rows) sz" unfolding sz_def by (rule stack_init_shape)
  have n: "length sz = length keys" by (simp add: sz_def stack_init_def)
  have k': "k < length sz" using k n by simp
  have z0: "0 < length keys" using k by linarith
  have raw: "\<And>t. t < length keys \<Longrightarrow> raw_at sz j t = stack_value X (rows ! j) (keys ! t)"
    unfolding sz_def using j by (simp add: stack_init_facts)
  have x0: "pt_x1 (s_points (sz ! 0) ! j) = Num 0"
    unfolding sz_def using z0 j by (simp add: stack_init_facts)
  have Tsz: "(\<Sum>t = 0..<length sz. or_zero (raw_at sz j t)) = T"
    unfolding T_def n by (rule sum.cong) (simp_all add: raw)
  have "pt_x1 (s_points (d3_stack keys X stackOrderNone off rows ! k) ! j) = Num S
    \<and> pt_x2 (s_points (d3_stack keys X stackOrderNone off rows ! k) ! j)
         = js_add (offset_value off T (stack_value X (rows ! j) (keys ! k))) (Num S)"
  proof (cases off)
    case stackOffsetNone
    have d: "d3_stack keys X stackOrderNone off rows = d3_stackOffsetNone sz [0..<length sz]"
      by (simp add: d3_stack_def sz_def stackOffsetNone Let_def)
    have S': "(\<Sum>t = 0..<k. or_zero (raw_at sz j t)) = S"
      unfolding S_def using k by (intro sum.cong) (simp_all add: raw stackOffsetNone offset_value_def)
    note p = stackOffsetNone_point [OF r j k' x0, unfolded S']
    have a: "pt_x1 (s_points (d3_stack keys X stackOrderNone off rows ! k) ! j) = Num S"
      unfolding d p by simp
    have b: "pt_x2 (s_points (d3_stack keys X stackOrderNone off rows ! k) ! j)
         = js_add (offset_value off T (stack_value X (rows ! j) (keys ! k))) (Num S)"
      unfolding d p using k by (simp add: raw stackOffsetNone offset_value_def)
    from a b show ?thesis by simp
  next
    case stackOffsetExpand
    define sz' where "sz' = map (\<lambda>s. s\<lparr>s_points := map2 expand_point (s_points s) (row_sums sz)\<rparr>) sz"
    have ne: "sz \<noteq> []" using k' by auto
    have n': "length sz' = length sz" by (simp add: sz'_def)
    have r': "rect_shape (length rows) sz'"
      unfolding sz'_def using expand_map_skel [OF r length_row_sums [OF r ne]] by simp
    have d: "d3_stack keys X stackOrderNone off rows = d3_stackOffsetNone sz' [0..<length sz']"
      using ne by (simp add: d3_stack_def sz_def [symmetric] stackOffsetExpand
          d3_stackOffsetExpand_def sz'_def Let_def)
    have raw': "raw_at sz' j t = offset_value off T (stack_value X (rows ! j) (keys ! t))"
      if t: "t < length keys" for t
    proof -
      have "t < length sz" using t n by simp
      from expand_raw(1) [OF r j this]
      have "raw_at sz' j t = expanded T (raw_at sz j t)"
        unfolding Tsz sz'_def .
      then show ?thesis
        by (simp add: raw [OF t] stackOffsetExpand offset_value_def)
    qed
    have x0': "pt_x1 (s_points (sz' ! 0) ! j) = Num 0"
      unfolding sz'_def using expand_raw(2) [OF r j, of 0] z0 n x0 by simp
    have S': "(\<Sum>t = 0..<k. or_zero (raw_at sz' j t)) = S"
      unfolding S_def using k by (intro sum.cong) (simp_all add: raw')
    have k'': "k < length sz'" using k' n' by simp
    note p = stackOffsetNone_point [OF r' j k'' x0', unfolded S']
    have a: "pt_x1 (s_points (d3_stack keys X stackOrderNone off rows ! k) ! j) = Num S"
      unfolding d p by simp
    have b: "pt_x2 (s_points (d3_stack keys X stackOrderNone off rows ! k) ! j)
         = js_add (offset_value off T (stack_value X (rows ! j) (keys ! k))) (Num S)"
      unfolding d p using k by (simp add: raw')
    from a b show ?thesis by simp
  qed
  then show "pt_x1 (s_points (d3_stack keys X stackOrderNone off rows ! k) ! j) = Num S"
    and "pt_x2 (s_points (d3_stack keys X stackOrderNone off rows ! k) ! j)
         = js_add (offset_value off T (stack_value X (rows ! j) (keys ! k))) (Num S)"
    by simp_all
qed

lemma assign_i_xs:
  assumes "k < length sz" "j < length (s_points (sz ! k))"
  shows "pt_x1 (s_points (assign_i sz ! k) ! j) = pt_x1 (s_points (sz ! k) ! j)"
    and "pt_x2 (s_points (assign_i sz ! k) ! j) = pt_x2 (s_points (sz ! k) ! j)"
    and "pt_data (s_points (assign_i sz ! k) ! j) = pt_data (s_points (sz ! k) ! j)"
  using assms by (simp_all add: assign_i_def)

lemma layout_lengths:
  assumes L: "chart_layout data opts = Inr L"
  shows "length (l_X L) = length data" "length (l_Y L) = length data" "length (l_Z L) = length data"
  using chart_layout_fields(1-3) [OF L] by (simp_all add: d3_map_length)

lemma kept_indices:
  assumes L: "chart_layout data opts = Inr L"
  shows "set (l_I L) = {i. i < length data \<and> l_Y L ! i \<in> set (l_yDomain L)
                            \<and> l_Z L ! i \<in> set (l_zDomain L)}"
    and "sorted (l_I L)" and "distinct (l_I L)"
  unfolding chart_layout_fields(6) [OF L] index_filter_def layout_lengths(1) [OF L]
  by (auto simp: sorted_wrt_filter)

lemma find_sorted_least:
  "sorted xs \<Longrightarrow> x \<in> set xs \<Longrightarrow> P x \<Longrightarrow> \<exists>y. List.find P xs = Some y \<and> y \<le> x \<and> P y \<and> y \<in> set xs"
  for xs :: "nat list"
proof (induction xs)
  case Nil
  then show ?case by simp
next
  case (Cons a xs)
  then show ?case by (cases "P a") auto
qed

lemma retained_first:
  assumes L: "chart_layout data opts = Inr L"
    and i: "i \<in> set (l_I L)"
  shows "\<exists>i0. retained L (l_Y L ! i) (l_Z L ! i) = Some i0 \<and> i0 \<le> i \<and> i0 \<in> set (l_I L)
              \<and> l_Y L ! i0 = l_Y L ! i \<and> l_Z L ! i0 = l_Z L ! i"
  using find_sorted_least [OF kept_indices(2) [OF L] i,
      of "\<lambda>i'. l_Y L ! i' = l_Y L ! i \<and> l_Z L ! i' = l_Z L ! i"]
  by (auto simp: retained_def)

lemma retained_Some:
  "retained L c s = Some i \<Longrightarrow> i \<in> set (l_I L) \<and> l_Y L ! i = c \<and> l_Z L ! i = s"
  by (auto simp: retained_def find_Some_iff)

lemma stack_value_quantity:
  assumes L: "chart_layout data opts = Inr L" and d: "d \<in> set (rollup_rows L)"
  shows "stack_value (l_X L) d s = quantity L (fst d) s"
proof -
  have l: "(case map_of (snd d) s of None \<Rightarrow> None | Some i \<Rightarrow> i) = retained L (fst d) s"
    using rollup_lookup [of d "l_I L" "\<lambda>i. l_Y L ! i" "\<lambda>i. l_Z L ! i" s] d
    by (simp add: rollup_rows_def retained_def)
  show ?thesis
  proof (cases "retained L (fst d) s")
    case None
    then show ?thesis by (simp add: stack_value_def l quantity_def js_at_def)
  next
    case (Some i)
    then have "i \<in> set (l_I L)" by (simp add: retained_Some)
    then have "i < length (l_X L)"
      using kept_indices(1) [OF L] layout_lengths(1) [OF L] by simp
    with Some show ?thesis by (simp add: stack_value_def l quantity_def js_at_def)
  qed
qed

lemma series_nth:
  assumes L: "chart_layout data opts = Inr L" and k: "k < length (l_zDomain L)"
  shows "length (l_series L) = length (l_zDomain L)"
    and "s_key (l_series L ! k) = l_zDomain L ! k"
    and "map pt_data (s_points (l_series L ! k)) = rollup_rows L"
    and "length (s_points (l_series L ! k)) = length (rollup_rows L)"
proof -
  have len: "length (l_series L) = length (l_zDomain L)"
    using arg_cong [OF series_keys [OF L], of length] by simp
  then show "length (l_series L) = length (l_zDomain L)" .
  have m: "l_series L ! k \<in> set (l_series L)" using k len by simp
  show "s_key (l_series L ! k) = l_zDomain L ! k"
    using arg_cong [OF series_keys [OF L], of "\<lambda>xs. xs ! k"] k len by simp
  show d: "map pt_data (s_points (l_series L ! k)) = rollup_rows L"
    by (rule series_member(2) [OF L m])
  show "length (s_points (l_series L ! k)) = length (rollup_rows L)"
    using arg_cong [OF d, of length] by simp
qed

lemma rollup_rows_facts:
  assumes L: "chart_layout data opts = Inr L"
  shows "distinct (map fst (rollup_rows L))"
    and "set (map fst (rollup_rows L)) = (\<lambda>i. l_Y L ! i) ` set (l_I L)"
  unfolding rollup_rows_def by (rule rollup_keys_distinct, rule rollup_keys)

lemma d3_stack_lengths:
  assumes k: "k < length keys"
  shows "length (d3_stack keys X ord off rows) = length keys"
    and "length (s_points (d3_stack keys X ord off rows ! k)) = length rows"
proof -
  note sk = d3_stack_skel [of keys X ord off rows]
  show len: "length (d3_stack keys X ord off rows) = length keys"
    using arg_cong [OF sk, of length] by simp
  have "skel (d3_stack keys X ord off rows ! k) = (keys ! k, rows)"
    using arg_cong [OF sk, of "\<lambda>xs. xs ! k"] k len by simp
  then have "map pt_data (s_points (d3_stack keys X ord off rows ! k)) = rows"
    by (simp add: skel_def)
  from arg_cong [OF this, of length]
  show "length (s_points (d3_stack keys X ord off rows ! k)) = length rows" by simp
qed

lemma foldl_add_sum_list:
  "foldl (\<lambda>y s. y + f s) a xs = a + sum_list (map f xs)" for a :: rat
  by (induction xs arbitrary: a) (simp_all add: add.assoc)

lemma row_total_sum:
  "row_total L c = (\<Sum>t = 0..<length (l_zDomain L). or_zero (quantity L c (l_zDomain L ! t)))"
  by (simp add: row_total_def foldl_add_sum_list sum_list_sum_nth)

lemma layout_point:
  fixes L :: "'y layout" and k j :: nat
  assumes L: "chart_layout data opts = Inr L" and o: "o_order opts = stackOrderNone"
    and k: "k < length (l_zDomain L)" and j: "j < length (rollup_rows L)"
  defines "c \<equiv> fst (rollup_rows L ! j)"
  defines "S \<equiv> (\<Sum>t = 0..<k. or_zero (offset_value (o_offset opts) (row_total L c)
                                            (quantity L c (l_zDomain L ! t))))"
  shows "pt_x1 (s_points (l_series L ! k) ! j) = Num S"
    and "pt_x2 (s_points (l_series L ! k) ! j)
         = js_add (offset_value (o_offset opts) (row_total L c) (quantity L c (l_zDomain L ! k)))
                  (Num S)"
    and "pt_data (s_points (l_series L ! k) ! j) = rollup_rows L ! j"
    and "pt_i (s_points (l_series L ! k) ! j) = retained L c (l_zDomain L ! k)"
proof -
  define st where "st = d3_stack (l_zDomain L) (l_X L) stackOrderNone (o_offset opts) (rollup_rows L)"
  have ser: "l_series L = assign_i st"
    using chart_layout_fields(9) [OF L] o by (simp add: st_def)
  have kl: "k < length st" and jl: "j < length (s_points (st ! k))"
    unfolding st_def using k j by (simp_all add: d3_stack_lengths [OF k])
  have d: "rollup_rows L ! j \<in> set (rollup_rows L)" using j by simp
  have sv: "\<And>t. stack_value (l_X L) (rollup_rows L ! j) t = quantity L c t"
    unfolding c_def by (rule stack_value_quantity [OF L d])
  note sp = stack_point_OrderNone [OF k j, of "l_X L" "o_offset opts", folded st_def,
      unfolded sv row_total_sum [symmetric], folded S_def]
  show "pt_x1 (s_points (l_series L ! k) ! j) = Num S"
    unfolding ser assign_i_xs(1) [OF kl jl] by (rule sp(1))
  show "pt_x2 (s_points (l_series L ! k) ! j)
         = js_add (offset_value (o_offset opts) (row_total L c) (quantity L c (l_zDomain L ! k)))
                  (Num S)"
    unfolding ser assign_i_xs(2) [OF kl jl] by (rule sp(2))
  have pd: "map pt_data (s_points (l_series L ! k)) = rollup_rows L"
    and pl: "length (s_points (l_series L ! k)) = length (rollup_rows L)"
    and sk: "s_key (l_series L ! k) = l_zDomain L ! k"
    and sl: "length (l_series L) = length (l_zDomain L)"
    using series_nth [OF L k] by simp_all
  show dd: "pt_data (s_points (l_series L ! k) ! j) = rollup_rows L ! j"
    using arg_cong [OF pd, of "\<lambda>xs. xs ! j"] j pl by simp
  have m1: "l_series L ! k \<in> set (l_series L)" using k sl by simp
  have m2: "s_points (l_series L ! k) ! j \<in> set (s_points (l_series L ! k))"
    using j pl by simp
  show "pt_i (s_points (l_series L ! k) ! j) = retained L c (l_zDomain L ! k)"
    using point_index [OF L m1 m2] by (simp add: dd sk retained_def c_def)
qed

lemma filter_eq_nth:
  "distinct (map f xs) \<Longrightarrow> j < length xs \<Longrightarrow> filter (\<lambda>x. f x = f (xs ! j)) xs = [xs ! j]"
proof (induction xs arbitrary: j)
  case Nil
  then show ?case by simp
next
  case (Cons x xs)
  show ?case
  proof (cases j)
    case 0
    have "filter (\<lambda>y. f y = f x) xs = []"
      using Cons.prems(1) unfolding filter_empty_conv by (metis distinct.simps(2) list.simps(9) image_eqI set_map)
    with 0 show ?thesis by simp
  next
    case (Suc n)
    then have n: "n < length xs" using Cons.prems(2) by simp
    then have "f (xs ! n) \<noteq> f x" using Cons.prems(1) by (metis distinct.simps(2) list.simps(9) nth_mem image_eqI set_map)
    with Suc Cons.IH [of n] Cons.prems(1) n show ?thesis by auto
  qed
qed

lemma group_nth:
  assumes a: "StackedBarChartSVG data opts = Inr art" and L: "chart_layout data opts = Inr L"
    and k: "k < length (l_zDomain L)"
  shows "length (svg_groups art) = length (l_zDomain L)"
    and "g_key (svg_groups art ! k) = l_zDomain L ! k"
    and "g_rects (svg_groups art ! k)
         = map (draw_rect (xScale_of opts L) (yScale_of opts L) (l_Y L)) (s_points (l_series L ! k))"
    and "g_images (svg_groups art ! k)
         = map (draw_image (xScale_of opts L) (yScale_of opts L) (l_Y L) (l_Z L))
               (s_points (l_series L ! k))"
proof -
  from a obtain L' where L': "chart_layout data opts = Inr L'"
    and al: "list_all2 (\<lambda>s g. draw_group (xScale_of opts L') (yScale_of opts L')
                         (ordinal_apply (l_zDomain L') (o_colors opts)) (l_Y L') (l_Z L') s = Inr g)
       (l_series L') (svg_groups art)"
    by (rule builder_Inr)
  have LL: "L' = L" using L L' by simp
  have len: "length (svg_groups art) = length (l_series L)"
    using al LL by (simp add: list_all2_lengthD)
  have sl: "length (l_series L) = length (l_zDomain L)" by (rule series_nth(1) [OF L k])
  show "length (svg_groups art) = length (l_zDomain L)" using len sl by simp
  have kk: "k < length (svg_groups art)" using k len sl by simp
  have dg: "draw_group (xScale_of opts L) (yScale_of opts L)
        (ordinal_apply (l_zDomain L) (o_colors opts)) (l_Y L) (l_Z L) (l_series L ! k)
        = Inr (svg_groups art ! k)"
    using list_all2_nthD2 [OF al kk] LL by simp
  show "g_key (svg_groups art ! k) = l_zDomain L ! k"
    using draw_group_Inr(1) [OF dg] series_nth(2) [OF L k] by simp
  show "g_rects (svg_groups art ! k)
         = map (draw_rect (xScale_of opts L) (yScale_of opts L) (l_Y L)) (s_points (l_series L ! k))"
    by (rule draw_group_Inr(2) [OF dg])
  show "g_images (svg_groups art ! k)
         = map (draw_image (xScale_of opts L) (yScale_of opts L) (l_Y L) (l_Z L))
               (s_points (l_series L ! k))"
    by (rule draw_group_Inr(3) [OF dg])
qed

lemma group_keys:
  assumes a: "StackedBarChartSVG data opts = Inr art" and L: "chart_layout data opts = Inr L"
  shows "map g_key (svg_groups art) = l_zDomain L"
proof (cases "l_zDomain L = []")
  case True
  from a obtain L' where L': "chart_layout data opts = Inr L'"
    and al: "list_all2 (\<lambda>s g. draw_group (xScale_of opts L') (yScale_of opts L')
                         (ordinal_apply (l_zDomain L') (o_colors opts)) (l_Y L') (l_Z L') s = Inr g)
       (l_series L') (svg_groups art)"
    by (rule builder_Inr)
  have LL: "L' = L" using L L' by simp
  have "length (l_series L) = 0"
    using arg_cong [OF series_keys [OF L], of length] True by simp
  then have "svg_groups art = []" using al LL by simp
  with True show ?thesis by simp
next
  case False
  then have z: "0 < length (l_zDomain L)" by simp
  show ?thesis
  proof (rule nth_equalityI)
    show "length (map g_key (svg_groups art)) = length (l_zDomain L)"
      using group_nth(1) [OF a L z] by simp
  next
    fix k assume "k < length (map g_key (svg_groups art))"
    then have k: "k < length (l_zDomain L)" using group_nth(1) [OF a L z] by simp
    then show "map g_key (svg_groups art) ! k = l_zDomain L ! k"
      using group_nth(1,2) [OF a L k] by simp
  qed
qed

lemma segments_of_nth:
  assumes a: "StackedBarChartSVG data opts = Inr art" and L: "chart_layout data opts = Inr L"
    and k: "k < length (l_zDomain L)" and j: "j < length (rollup_rows L)"
  shows "segments_of art (fst (rollup_rows L ! j)) (l_zDomain L ! k)
         = [draw_rect (xScale_of opts L) (yScale_of opts L) (l_Y L) (s_points (l_series L ! k) ! j)]"
proof -
  have dz: "distinct (map g_key (svg_groups art))"
    unfolding group_keys [OF a L] chart_layout_fields(5) [OF L] by (rule distinct_InternSet)
  have kk: "k < length (svg_groups art)" using group_nth(1) [OF a L k] k by simp
  have "filter (\<lambda>g. g_key g = g_key (svg_groups art ! k)) (svg_groups art) = [svg_groups art ! k]"
    by (rule filter_eq_nth [OF dz kk])
  then have f1: "filter (\<lambda>g. g_key g = l_zDomain L ! k) (svg_groups art) = [svg_groups art ! k]"
    unfolding group_nth(2) [OF a L k] .
  define pts where "pts = s_points (l_series L ! k)"
  have pd: "map pt_data pts = rollup_rows L" and pl: "length pts = length (rollup_rows L)"
    unfolding pts_def using series_nth(3,4) [OF L k] by simp_all
  have "distinct (map fst (map pt_data pts))"
    unfolding pd by (rule rollup_rows_facts(1) [OF L])
  then have dp: "distinct (map (\<lambda>d. fst (pt_data d)) pts)" by (simp add: comp_def)
  have jj: "j < length pts" using j pl by simp
  have pj: "fst (pt_data (pts ! j)) = fst (rollup_rows L ! j)"
    using arg_cong [OF pd, of "\<lambda>xs. xs ! j"] jj by simp
  have f2: "filter (\<lambda>d. fst (pt_data d) = fst (rollup_rows L ! j)) pts = [pts ! j]"
    using filter_eq_nth [OF dp jj] unfolding pj .
  have "filter (\<lambda>r. fst (pt_data (r_datum r)) = fst (rollup_rows L ! j))
          (map (draw_rect (xScale_of opts L) (yScale_of opts L) (l_Y L)) pts)
        = map (draw_rect (xScale_of opts L) (yScale_of opts L) (l_Y L))
            (filter (\<lambda>d. fst (pt_data d) = fst (rollup_rows L ! j)) pts)"
    by (simp add: filter_map comp_def draw_rect_def)
  then have "filter (\<lambda>r. fst (pt_data (r_datum r)) = fst (rollup_rows L ! j))
          (g_rects (svg_groups art ! k))
        = [draw_rect (xScale_of opts L) (yScale_of opts L) (l_Y L) (pts ! j)]"
    unfolding group_nth(3) [OF a L k] pts_def [symmetric] f2 by simp
  then show ?thesis
    unfolding segments_of_def f1 pts_def by simp
qed

lemma layout_point_ref:
  fixes L :: "'y layout"
  assumes L: "chart_layout data opts = Inr L"
    and k: "k < length (l_zDomain L)" and j: "j < length (rollup_rows L)"
  shows "pt_data (s_points (l_series L ! k) ! j) = rollup_rows L ! j"
    and "pt_i (s_points (l_series L ! k) ! j)
         = retained L (fst (rollup_rows L ! j)) (l_zDomain L ! k)"
proof -
  have pd: "map pt_data (s_points (l_series L ! k)) = rollup_rows L"
    and pl: "length (s_points (l_series L ! k)) = length (rollup_rows L)"
    and sk: "s_key (l_series L ! k) = l_zDomain L ! k"
    and sl: "length (l_series L) = length (l_zDomain L)"
    using series_nth [OF L k] by simp_all
  show dd: "pt_data (s_points (l_series L ! k) ! j) = rollup_rows L ! j"
    using arg_cong [OF pd, of "\<lambda>xs. xs ! j"] j pl by simp
  have m1: "l_series L ! k \<in> set (l_series L)" using k sl by simp
  have m2: "s_points (l_series L ! k) ! j \<in> set (s_points (l_series L ! k))"
    using j pl by simp
  show "pt_i (s_points (l_series L ! k) ! j)
        = retained L (fst (rollup_rows L ! j)) (l_zDomain L ! k)"
    using point_index [OF L m1 m2] by (simp add: dd sk retained_def)
qed

lemma kept_position:
  assumes L: "chart_layout data opts = Inr L" and i: "i \<in> set (l_I L)"
  obtains k j where "k < length (l_zDomain L)" "l_zDomain L ! k = l_Z L ! i"
    "j < length (rollup_rows L)" "fst (rollup_rows L ! j) = l_Y L ! i"
proof -
  have "l_Z L ! i \<in> set (l_zDomain L)" using kept_indices(1) [OF L] i by simp
  then obtain k where k: "k < length (l_zDomain L)" "l_zDomain L ! k = l_Z L ! i"
    by (auto simp: in_set_conv_nth)
  have "l_Y L ! i \<in> set (map fst (rollup_rows L))"
    unfolding rollup_rows_facts(2) [OF L] using i by simp
  then obtain j where j: "j < length (rollup_rows L)" "fst (rollup_rows L ! j) = l_Y L ! i"
    by (auto simp: in_set_conv_nth)
  from k j show thesis by (rule that)
qed

lemma row_filter_nth:
  assumes a: "StackedBarChartSVG data opts = Inr art" and L: "chart_layout data opts = Inr L"
    and k: "k < length (l_zDomain L)" and j: "j < length (rollup_rows L)"
  shows "filter (\<lambda>r. fst (pt_data (r_datum r)) = fst (rollup_rows L ! j))
           (g_rects (svg_groups art ! k))
         = [draw_rect (xScale_of opts L) (yScale_of opts L) (l_Y L) (s_points (l_series L ! k) ! j)]"
proof -
  define pts where "pts = s_points (l_series L ! k)"
  have pd: "map pt_data pts = rollup_rows L" and pl: "length pts = length (rollup_rows L)"
    unfolding pts_def using series_nth(3,4) [OF L k] by simp_all
  have "distinct (map fst (map pt_data pts))"
    unfolding pd by (rule rollup_rows_facts(1) [OF L])
  then have dp: "distinct (map (\<lambda>d. fst (pt_data d)) pts)" by (simp add: comp_def)
  have jj: "j < length pts" using j pl by simp
  have pj: "fst (pt_data (pts ! j)) = fst (rollup_rows L ! j)"
    using arg_cong [OF pd, of "\<lambda>xs. xs ! j"] jj by simp
  have f2: "filter (\<lambda>d. fst (pt_data d) = fst (rollup_rows L ! j)) pts = [pts ! j]"
    using filter_eq_nth [OF dp jj] unfolding pj .
  have "filter (\<lambda>r. fst (pt_data (r_datum r)) = fst (rollup_rows L ! j))
          (map (draw_rect (xScale_of opts L) (yScale_of opts L) (l_Y L)) pts)
        = map (draw_rect (xScale_of opts L) (yScale_of opts L) (l_Y L))
            (filter (\<lambda>d. fst (pt_data d) = fst (rollup_rows L ! j)) pts)"
    by (simp add: filter_map comp_def draw_rect_def)
  then show ?thesis
    unfolding group_nth(3) [OF a L k] pts_def [symmetric] f2 by simp
qed

lemma row_rects_nth:
  assumes a: "StackedBarChartSVG data opts = Inr art" and L: "chart_layout data opts = Inr L"
    and j: "j < length (rollup_rows L)"
  shows "row_rects art (fst (rollup_rows L ! j))
         = map (\<lambda>k. draw_rect (xScale_of opts L) (yScale_of opts L) (l_Y L)
                       (s_points (l_series L ! k) ! j))
               [0..<length (l_zDomain L)]"
proof -
  have len: "length (svg_groups art) = length (l_zDomain L)"
    using arg_cong [OF group_keys [OF a L], of length] by simp
  have "map (\<lambda>g. filter (\<lambda>r. fst (pt_data (r_datum r)) = fst (rollup_rows L ! j)) (g_rects g))
            (svg_groups art)
        = map (\<lambda>k. [draw_rect (xScale_of opts L) (yScale_of opts L) (l_Y L)
                       (s_points (l_series L ! k) ! j)])
              [0..<length (l_zDomain L)]"
    by (rule nth_equalityI) (simp_all add: len row_filter_nth [OF a L _ j])
  then show ?thesis
    unfolding row_rects_def by simp
qed

lemma draw_groups_total:
  "\<forall>s \<in> set ss. \<not> isl (f s) \<Longrightarrow> \<exists>gs. draw_groups f ss = Inr gs"
proof (induction ss)
  case Nil
  then show ?case by simp
next
  case (Cons s ss)
  then obtain gs where "draw_groups f ss = Inr gs" by auto
  moreover from Cons.prems obtain g where "f s = Inr g" by (cases "f s") auto
  ultimately show ?case by simp
qed

lemma builder_returns:
  fixes L :: "'y layout"
  assumes L: "chart_layout data opts = Inr L" and k: "l_I L \<noteq> [] \<or> l_zDomain L = []"
  shows "\<exists>art. StackedBarChartSVG data opts = Inr art"
proof -
  have "\<not> isl (draw_group (xScale_of opts L) (yScale_of opts L)
                 (ordinal_apply (l_zDomain L) (o_colors opts)) (l_Y L) (l_Z L) s)"
    if s: "s \<in> set (l_series L)" for s
  proof -
    have ne: "l_zDomain L \<noteq> []" using series_member(1) [OF L s] by auto
    with k have "l_I L \<noteq> []" by simp
    then have "set (map fst (rollup_rows L)) \<noteq> {}"
      unfolding rollup_rows_facts(2) [OF L] by simp
    then have "rollup_rows L \<noteq> []" by auto
    then have "s_points s \<noteq> []" using series_member(2) [OF L s] by auto
    then show ?thesis by (cases "s_points s") (simp_all add: draw_group_def)
  qed
  then have "\<forall>s \<in> set (l_series L).
      \<not> isl (draw_group (xScale_of opts L) (yScale_of opts L)
                 (ordinal_apply (l_zDomain L) (o_colors opts)) (l_Y L) (l_Z L) s)"
    by simp
  from draw_groups_total [OF this] obtain gs where
    gs: "draw_groups (draw_group (xScale_of opts L) (yScale_of opts L)
                 (ordinal_apply (l_zDomain L) (o_colors opts)) (l_Y L) (l_Z L)) (l_series L) = Inr gs"
    ..
  have "render opts L = Inr \<lparr>svg_viewBox = (0, 0, o_width opts, l_height L), svg_groups = gs,
                     svg_xAxis_translate = (0, o_marginTop opts),
                     svg_yAxis_translate = (xScale_of opts L (Num 0), 0)\<rparr>"
    using gs unfolding render_def Let_def xScale_of_def yScale_of_def by simp
  then show ?thesis
    using L by (simp add: StackedBarChartSVG_def)
qed

lemma none_loop_rel:
  assumes "rect_shape m sz" "length s0 = m" "distinct ks" "\<forall>k \<in> set ks. k < length sz"
  shows "(\<forall>l. l \<notin> set ks \<longrightarrow> none_loop sz s0 ks ! l = sz ! l) \<and>
         (\<forall>l \<in> set ks. \<forall>j<m.
            pt_x2 (s_points (none_loop sz s0 ks ! l) ! j)
            = js_add (raw_at sz j l) (pt_x1 (s_points (none_loop sz s0 ks ! l) ! j)))"
  using assms
proof (induction ks arbitrary: sz s0)
  case Nil
  then show ?case by simp
next
  case (Cons k ks)
  define s1 where "s1 = map2 shift_point s0 (s_points (sz ! k))"
  define sz' where "sz' = sz[k := (sz ! k)\<lparr>s_points := s1\<rparr>]"
  have k: "k < length sz" "k \<notin> set ks" using Cons.prems(3,4) by simp_all
  have lk: "length (s_points (sz ! k)) = m"
    using Cons.prems(1) k by (auto simp: rect_shape_def)
  have l1: "length s1 = m" using lk Cons.prems(2) by (simp add: s1_def)
  have r1: "rect_shape m sz'"
    unfolding sz'_def rect_shape_def
    using Cons.prems(1) l1 by (auto simp: rect_shape_def dest!: set_update_subset_insert [THEN subsetD])
  have len: "length sz' = length sz" by (simp add: sz'_def)
  have d: "distinct ks" and b: "\<forall>k \<in> set ks. k < length sz'"
    using Cons.prems(3,4) len by simp_all
  have unf: "none_loop sz s0 (k # ks) = none_loop sz' s1 ks"
    by (simp add: s1_def sz'_def Let_def)
  have raw': "\<And>t j. t \<noteq> k \<Longrightarrow> raw_at sz' j t = raw_at sz j t"
    by (simp add: raw_at_def sz'_def)
  note IH = Cons.IH [OF r1 l1 d b]
  show ?case
  proof (intro conjI allI impI ballI)
    fix l assume "l \<notin> set (k # ks)"
    then show "none_loop sz s0 (k # ks) ! l = sz ! l"
      unfolding unf using IH by (simp add: sz'_def)
  next
    fix l j assume l: "l \<in> set (k # ks)" and j: "j < m"
    show "pt_x2 (s_points (none_loop sz s0 (k # ks) ! l) ! j)
          = js_add (raw_at sz j l) (pt_x1 (s_points (none_loop sz s0 (k # ks) ! l) ! j))"
    proof (cases "l = k")
      case True
      have "none_loop sz' s1 ks ! k = sz' ! k" using IH k(2) by simp
      then have "s_points (none_loop sz' s1 ks ! k) ! j = s1 ! j"
        using k(1) by (simp add: sz'_def)
      also have "\<dots> = shift_point (s0 ! j) (s_points (sz ! k) ! j)"
        using lk Cons.prems(2) j by (simp add: s1_def)
      finally show ?thesis
        unfolding unf True by (simp add: shift_point_eq raw_at_def)
    next
      case False
      with l have "l \<in> set ks" by simp
      with IH j show ?thesis unfolding unf by (simp add: raw' [OF False])
    qed
  qed
qed

lemma stackOffsetNone_rel:
  assumes r: "rect_shape m sz" and d: "distinct oz" and s: "set oz = {0..<length sz}"
    and z: "\<forall>l<length sz. \<forall>j<m. pt_x1 (s_points (sz ! l) ! j) = Num 0"
    and l: "l < length sz" and j: "j < m"
  shows "pt_x2 (s_points (d3_stackOffsetNone sz oz ! l) ! j)
         = js_add (raw_at sz j l) (pt_x1 (s_points (d3_stackOffsetNone sz oz ! l) ! j))"
proof -
  have same: "pt_x2 (s_points (sz ! l) ! j) = js_add (raw_at sz j l) (pt_x1 (s_points (sz ! l) ! j))"
    using z l j by (simp add: raw_at_def js_add_zero)
  show ?thesis
  proof (cases "1 < length sz")
    case False
    then show ?thesis using same by (simp add: d3_stackOffsetNone_def)
  next
    case True
    then have "oz \<noteq> []" using s by auto
    then obtain k ks where oz: "oz = k # ks" by (cases oz) auto
    have k: "k < length sz" "k \<notin> set ks" "distinct ks" "\<forall>k \<in> set ks. k < length sz"
      using d s unfolding oz by auto
    have l0: "length (s_points (sz ! k)) = m" using r k(1) by (auto simp: rect_shape_def)
    have u: "d3_stackOffsetNone sz oz = none_loop sz (s_points (sz ! k)) ks"
      using True by (simp add: d3_stackOffsetNone_def oz)
    note nl = none_loop_rel [OF r l0 k(3,4)]
    show ?thesis
    proof (cases "l \<in> set ks")
      case True
      with nl j show ?thesis unfolding u by blast
    next
      case False
      with nl have "none_loop sz (s_points (sz ! k)) ks ! l = sz ! l" by blast
      then show ?thesis unfolding u using same by simp
    qed
  qed
qed

lemma apply_order_perm:
  "distinct (apply_order ord sz) \<and> set (apply_order ord sz) = {0..<length sz}"
  by (cases ord) auto

lemma stack_point_rel:
  fixes X :: "jsnum list" and rows :: "'y row list" and keys :: "jsnum list"
    and off :: stack_offset and ord :: stack_order and k j :: nat
  assumes k: "k < length keys" and j: "j < length rows"
  defines "T \<equiv> (\<Sum>t = 0..<length keys. or_zero (stack_value X (rows ! j) (keys ! t)))"
  shows "pt_x2 (s_points (d3_stack keys X ord off rows ! k) ! j)
         = js_add (offset_value off T (stack_value X (rows ! j) (keys ! k)))
                  (pt_x1 (s_points (d3_stack keys X ord off rows ! k) ! j))"
proof -
  define sz where "sz = stack_init keys X rows"
  define oz where "oz = apply_order ord sz"
  have r: "rect_shape (length rows) sz" unfolding sz_def by (rule stack_init_shape)
  have n: "length sz = length keys" by (simp add: sz_def stack_init_def)
  have k': "k < length sz" using k n by simp
  have d: "distinct oz" and s: "set oz = {0..<length sz}"
    unfolding oz_def using apply_order_perm [of ord sz] by simp_all
  have raw: "\<And>t. t < length keys \<Longrightarrow> raw_at sz j t = stack_value X (rows ! j) (keys ! t)"
    unfolding sz_def using j by (simp add: stack_init_facts)
  have z: "\<forall>l<length sz. \<forall>j<length rows. pt_x1 (s_points (sz ! l) ! j) = Num 0"
    unfolding sz_def n [unfolded sz_def] by (simp add: stack_init_facts)
  have Tsz: "(\<Sum>t = 0..<length sz. or_zero (raw_at sz j t)) = T"
    unfolding T_def n by (rule sum.cong) (simp_all add: raw)
  show ?thesis
  proof (cases off)
    case stackOffsetNone
    have e: "d3_stack keys X ord off rows = d3_stackOffsetNone sz oz"
      by (simp add: d3_stack_def sz_def oz_def stackOffsetNone Let_def)
    show ?thesis
      unfolding e stackOffsetNone_rel [OF r d s z k' j]
      using k by (simp add: raw stackOffsetNone offset_value_def)
  next
    case stackOffsetExpand
    define sz' where "sz' = map (\<lambda>s. s\<lparr>s_points := map2 expand_point (s_points s) (row_sums sz)\<rparr>) sz"
    have ne: "sz \<noteq> []" using k' by auto
    have n': "length sz' = length sz" by (simp add: sz'_def)
    have r': "rect_shape (length rows) sz'"
      unfolding sz'_def using expand_map_skel [OF r length_row_sums [OF r ne]] by simp
    have e: "d3_stack keys X ord off rows = d3_stackOffsetNone sz' oz"
      using ne by (simp add: d3_stack_def sz_def [symmetric] oz_def stackOffsetExpand
          d3_stackOffsetExpand_def sz'_def Let_def)
    have raw': "raw_at sz' j k = offset_value off T (stack_value X (rows ! j) (keys ! k))"
    proof -
      from expand_raw(1) [OF r j k']
      have "raw_at sz' j k = expanded T (raw_at sz j k)"
        unfolding Tsz sz'_def .
      then show ?thesis
        by (simp add: raw [OF k] stackOffsetExpand offset_value_def)
    qed
    have z': "\<forall>l<length sz'. \<forall>j<length rows. pt_x1 (s_points (sz' ! l) ! j) = Num 0"
      unfolding n' sz'_def using expand_raw(2) [OF r] z by simp
    have s': "set oz = {0..<length sz'}" using s n' by simp
    have k'': "k < length sz'" using k' n' by simp
    show ?thesis
      unfolding e stackOffsetNone_rel [OF r' d s' z' k'' j] raw' ..
  qed
qed

lemma layout_point_rel:
  fixes L :: "'y layout" and k j :: nat
  assumes L: "chart_layout data opts = Inr L"
    and k: "k < length (l_zDomain L)" and j: "j < length (rollup_rows L)"
  defines "c \<equiv> fst (rollup_rows L ! j)"
  shows "pt_x2 (s_points (l_series L ! k) ! j)
         = js_add (offset_value (o_offset opts) (row_total L c) (quantity L c (l_zDomain L ! k)))
                  (pt_x1 (s_points (l_series L ! k) ! j))"
proof -
  define st where "st = d3_stack (l_zDomain L) (l_X L) (o_order opts) (o_offset opts) (rollup_rows L)"
  have ser: "l_series L = assign_i st"
    using chart_layout_fields(9) [OF L] by (simp add: st_def)
  have kl: "k < length st" and jl: "j < length (s_points (st ! k))"
    unfolding st_def using k j by (simp_all add: d3_stack_lengths [OF k])
  have d: "rollup_rows L ! j \<in> set (rollup_rows L)" using j by simp
  have sv: "\<And>t. stack_value (l_X L) (rollup_rows L ! j) t = quantity L c t"
    unfolding c_def by (rule stack_value_quantity [OF L d])
  note sp = stack_point_rel [OF k j, of "l_X L" "o_order opts" "o_offset opts", folded st_def,
      unfolded sv row_total_sum [symmetric]]
  show ?thesis
    unfolding ser assign_i_xs(1,2) [OF kl jl] by (rule sp)
qed

lemma edge_to_edge_nth:
  "edge_to_edge b ps \<longleftrightarrow>
     (ps \<noteq> [] \<longrightarrow> pt_x1 (ps ! 0) = b)
     \<and> (\<forall>k. Suc k < length ps \<longrightarrow> pt_x1 (ps ! Suc k) = base_of (ps ! k))"
proof (induction ps arbitrary: b)
  case Nil
  then show ?case by simp
next
  case (Cons p ps)
  show ?case
    unfolding edge_to_edge.simps Cons.IH
    by (auto simp: nth_Cons split: nat.splits)
qed

lemma layout_next_start:
  fixes L :: "'y layout" and k j :: nat
  assumes L: "chart_layout data opts = Inr L" and o: "o_order opts = stackOrderNone"
    and k: "Suc k < length (l_zDomain L)" and j: "j < length (rollup_rows L)"
  shows "pt_x1 (s_points (l_series L ! Suc k) ! j) = base_of (s_points (l_series L ! k) ! j)"
proof -
  define c where "c = fst (rollup_rows L ! j)"
  define v where "v t = offset_value (o_offset opts) (row_total L c) (quantity L c (l_zDomain L ! t))" for t
  have k': "k < length (l_zDomain L)" using k by simp
  have a: "pt_x1 (s_points (l_series L ! Suc k) ! j) = Num (\<Sum>t = 0..<Suc k. or_zero (v t))"
    using layout_point(1) [OF L o k j] by (simp add: c_def v_def)
  have b: "pt_x1 (s_points (l_series L ! k) ! j) = Num (\<Sum>t = 0..<k. or_zero (v t))"
    and e: "pt_x2 (s_points (l_series L ! k) ! j) = js_add (v k) (Num (\<Sum>t = 0..<k. or_zero (v t)))"
    using layout_point(1,2) [OF L o k' j] by (simp_all add: c_def v_def)
  show ?thesis
    unfolding a base_of_def b e by (cases "v k") (simp_all add: isNaN_def)
qed

lemma layout_first_start:
  fixes L :: "'y layout" and j :: nat
  assumes L: "chart_layout data opts = Inr L" and o: "o_order opts = stackOrderNone"
    and k: "0 < length (l_zDomain L)" and j: "j < length (rollup_rows L)"
  shows "pt_x1 (s_points (l_series L ! 0) ! j) = Num 0"
  using layout_point(1) [OF L o k j] by simp

section \<open>The claims\<close>

text \<open>
  C1, as the code has it. Take the default stack order and offset (stackOrderNone,
  stackOffsetExpand), let no accessor throw, and take a row of the chart: the
  category of a kept record. Then the builder returns a node that has, for this row,
  one rectangle per value of the series domain, in the order of the domain, bound to
  the record retained for the row and the series value (to none when there is none).
  The segments of these rectangles are laid edge to edge from 0: the first starts
  at 0 and each of the others where the one before it ends (where that one starts,
  when its end is NaN). Every segment ends at its start plus its quantity divided by
  the total of the row when the total is not zero, and at its start plus its quantity
  when the total is zero: stackOffsetExpand does not normalise a row of total zero.
  The statement names the sums and quotients that the program computes; it does not
  add up the widths of a row.
\<close>

theorem row_segments_edge_to_edge:
  fixes L :: "'y layout"
  assumes "chart_layout data opts = Inr L"
    and "o_order opts = stackOrderNone" and "o_offset opts = stackOffsetExpand"
    and "i \<in> set (l_I L)"
  shows "\<exists>art. StackedBarChartSVG data opts = Inr art
     \<and> map (\<lambda>r. pt_i (r_datum r)) (row_rects art (l_Y L ! i))
         = map (retained L (l_Y L ! i)) (l_zDomain L)
     \<and> edge_to_edge (Num 0) (map r_datum (row_rects art (l_Y L ! i)))
     \<and> (\<forall>k < length (l_zDomain L).
           pt_x2 (r_datum (row_rects art (l_Y L ! i) ! k))
           = js_add (expanded (row_total L (l_Y L ! i)) (quantity L (l_Y L ! i) (l_zDomain L ! k)))
                    (pt_x1 (r_datum (row_rects art (l_Y L ! i) ! k))))"
proof -
  note L = assms(1) and o = assms(2) and e = assms(3)
  have "l_I L \<noteq> []" using assms(4) by auto
  with builder_returns [OF L] obtain art :: "'y svg" where
    a: "StackedBarChartSVG data opts = Inr art"
    by blast
  from L assms(4) obtain k0 j where "k0 < length (l_zDomain L)"
    and j: "j < length (rollup_rows L)" and c: "fst (rollup_rows L ! j) = l_Y L ! i"
    by (rule kept_position)
  define n where "n = length (l_zDomain L)"
  define p where "p k = s_points (l_series L ! k) ! j" for k
  have rr: "map r_datum (row_rects art (l_Y L ! i)) = map p [0..<n]"
    using row_rects_nth [OF a L j] unfolding c n_def p_def
    by (simp add: draw_rect_def comp_def)
  have nth: "r_datum (row_rects art (l_Y L ! i) ! k) = p k" if "k < n" for k
    using arg_cong [OF rr, of "\<lambda>xs. xs ! k"] that row_rects_nth [OF a L j]
    unfolding c n_def by simp
  have 1: "map (\<lambda>r. pt_i (r_datum r)) (row_rects art (l_Y L ! i))
           = map (retained L (l_Y L ! i)) (l_zDomain L)"
  proof -
    have "map (\<lambda>r. pt_i (r_datum r)) (row_rects art (l_Y L ! i)) = map pt_i (map p [0..<n])"
      unfolding rr [symmetric] by (simp add: comp_def)
    also have "\<dots> = map (retained L (l_Y L ! i)) (l_zDomain L)"
      by (rule nth_equalityI) (simp_all add: n_def p_def layout_point_ref(2) [OF L _ j] c)
    finally show ?thesis .
  qed
  have 2: "edge_to_edge (Num 0) (map r_datum (row_rects art (l_Y L ! i)))"
    unfolding rr edge_to_edge_nth
    using layout_first_start [OF L o _ j] layout_next_start [OF L o _ j]
    by (auto simp: n_def p_def)
  have 3: "pt_x2 (r_datum (row_rects art (l_Y L ! i) ! k))
           = js_add (expanded (row_total L (l_Y L ! i)) (quantity L (l_Y L ! i) (l_zDomain L ! k)))
                    (pt_x1 (r_datum (row_rects art (l_Y L ! i) ! k)))"
    if k: "k < length (l_zDomain L)" for k
    using layout_point_rel [OF L k j] k
    unfolding nth [OF k [folded n_def]] p_def c e by (simp add: offset_value_def)
  from a 1 2 3 show ?thesis by blast
qed

theorem row_segments_edge_to_edge_witness:
  "chart_layout scenario1 response_options = Inr (projr (chart_layout scenario1 response_options))
   \<and> o_order response_options = stackOrderNone \<and> o_offset response_options = stackOffsetExpand
   \<and> 0 \<in> set (l_I (projr (chart_layout scenario1 response_options)))
   \<and> l_Y (projr (chart_layout scenario1 response_options)) ! 0 = ''A''
   \<and> StackedBarChartSVG scenario1 response_options
       = Inr (projr (StackedBarChartSVG scenario1 response_options))
   \<and> edge_to_edge (Num 0)
        (map r_datum (row_rects (projr (StackedBarChartSVG scenario1 response_options)) ''A''))
   \<and> map (\<lambda>r. (pt_i (r_datum r), pt_x1 (r_datum r), pt_x2 (r_datum r)))
        (row_rects (projr (StackedBarChartSVG scenario1 response_options)) ''A'')
       = [(Some 0, Num 0, Num (3 / 4)), (Some 1, Num (3 / 4), Num 1)]
   \<and> map r_width (row_rects (projr (StackedBarChartSVG scenario1 response_options)) ''A'')
       = [Num (3 * 105), Num 105]
   \<and> row_length (StackedBarChartSVG scenario1 response_options) ''A'' = Inr (Num (640 - 20 - 200))"
proof -
  define art where "art = projr (StackedBarChartSVG scenario1 response_options)"
  define L where "L = projr (chart_layout scenario1 response_options)"
  have "\<not> isl (StackedBarChartSVG scenario1 response_options)" by code_simp
  then have a: "StackedBarChartSVG scenario1 response_options = Inr art"
    by (simp add: art_def)
  have "\<not> isl (chart_layout scenario1 response_options)" by code_simp
  then have b: "chart_layout scenario1 response_options = Inr L"
    by (simp add: L_def)
  have o: "o_order response_options = stackOrderNone"
    "o_offset response_options = stackOffsetExpand"
    by (simp_all add: response_options_def default_options_def)
  have i: "0 \<in> set (l_I L)" unfolding L_def by code_simp
  have y: "l_Y L ! 0 = ''A''" unfolding L_def by code_simp
  from row_segments_edge_to_edge [OF b o i] a
  have e: "edge_to_edge (Num 0) (map r_datum (row_rects art ''A''))"
    unfolding y by auto
  have p: "map (\<lambda>r. (pt_i (r_datum r), pt_x1 (r_datum r), pt_x2 (r_datum r))) (row_rects art ''A'')
           = [(Some 0, Num 0, Num (3 / 4)), (Some 1, Num (3 / 4), Num 1)]"
    unfolding art_def by code_simp
  have w: "map r_width (row_rects art ''A'') = [Num (3 * 105), Num 105]"
    unfolding art_def by code_simp
  have t: "row_length (StackedBarChartSVG scenario1 response_options) ''A'' = Inr (Num (640 - 20 - 200))"
    by code_simp
  from a b o i y e p w t show ?thesis unfolding art_def L_def by blast
qed

theorem zero_total_row_not_normalised:
  "row_length (StackedBarChartSVG zero_row response_options) ''B'' = Inr (Num 0)
   \<and> row_length (StackedBarChartSVG zero_row response_options) ''A'' = Inr (Num 420)
   \<and> resolve_xRange response_options = (200, 620)"
  by code_simp

text \<open>
  C2. A record outside the category domain or the series domain is to be dropped
  without an error. The call below has one record, of category A, and the category
  domain B: no record is kept, the one series of the stack has no point, and the fill
  function of the builder throws a TypeError.
\<close>

theorem all_records_dropped_TypeError:
  "StackedBarChartSVG only_A1 domain_B
   = Inl (TypeError ''Cannot destructure property i of undefined'')"
  by code_simp

text \<open>
  C3. When the height option is omitted, the outer height of the returned node (the
  height of its view box) is 25 times the number of distinct values of the resolved
  category domain, plus the top margin, plus the bottom margin. The resolved
  domain holds the values of the yDomain option, or the extracted categories when
  the option is omitted. The node is returned when no accessor throws and a record
  is kept or the series domain is empty.
\<close>

theorem derived_height:
  fixes L :: "'y layout"
  assumes "chart_layout data opts = Inr L"
    and "o_height opts = None"
    and "l_I L \<noteq> [] \<or> l_zDomain L = []"
  shows "\<exists>art. StackedBarChartSVG data opts = Inr art
           \<and> svg_viewBox art =
               (0, 0, o_width opts,
                of_nat (card (set (l_yDomain L))) * 25 + o_marginTop opts + o_marginBottom opts)
           \<and> set (l_yDomain L) = set (case o_yDomain opts of None \<Rightarrow> l_Y L | Some d \<Rightarrow> d)"
proof -
  from builder_returns [OF assms(1,3)] obtain art :: "'y svg" where
    a: "StackedBarChartSVG data opts = Inr art" ..
  from a obtain L' where "chart_layout data opts = Inr L'"
    and v: "svg_viewBox art = (0, 0, o_width opts, l_height L')"
    by (rule builder_Inr)
  with assms(1) have v': "svg_viewBox art = (0, 0, o_width opts, l_height L)" by simp
  note d = chart_layout_fields(4) [OF assms(1)] and h = chart_layout_fields(7) [OF assms(1)]
  have "length (l_yDomain L) = card (set (l_yDomain L))"
    unfolding d by (simp add: length_InternSet_card set_InternSet)
  with a v' h assms(2) d show ?thesis by (simp add: set_InternSet)
qed

theorem derived_height_witness:
  "chart_layout scenario1 four_rows = Inr (projr (chart_layout scenario1 four_rows))
   \<and> o_height four_rows = None
   \<and> l_I (projr (chart_layout scenario1 four_rows)) \<noteq> []
   \<and> card (set (l_yDomain (projr (chart_layout scenario1 four_rows)))) = 4
   \<and> (\<exists>art. StackedBarChartSVG scenario1 four_rows = Inr art
          \<and> svg_viewBox art = (0, 0, 640, 4 * 25 + 30 + 0))"
proof -
  have "\<not> isl (chart_layout scenario1 four_rows)" by code_simp
  then have b: "chart_layout scenario1 four_rows = Inr (projr (chart_layout scenario1 four_rows))"
    by simp
  have c: "o_height four_rows = None" by code_simp
  have i: "l_I (projr (chart_layout scenario1 four_rows)) = [0, 1]" by code_simp
  then have k: "l_I (projr (chart_layout scenario1 four_rows)) \<noteq> []
                \<or> l_zDomain (projr (chart_layout scenario1 four_rows)) = []"
    by simp
  have d: "l_yDomain (projr (chart_layout scenario1 four_rows)) = [''A'', ''B'', ''C'', ''D'']"
    by code_simp
  have e: "o_width four_rows = 640" "o_marginTop four_rows = 30" "o_marginBottom four_rows = 0"
    by code_simp+
  have f: "card (set (l_yDomain (projr (chart_layout scenario1 four_rows)))) = 4"
    unfolding d by simp
  have g: "\<exists>art. StackedBarChartSVG scenario1 four_rows = Inr art
          \<and> svg_viewBox art = (0, 0, 640, 4 * 25 + 30 + 0)"
    using derived_height [OF b c k] unfolding f e by auto
  from b c i f g show ?thesis by simp
qed

text \<open>
  C4. A series value outside 1, 2, 3 is to raise an error. The call below has one
  record, of series value 4: the builder returns a node, and the image of the record
  has no href.
\<close>

theorem series_four_no_href:
  "image_hrefs (StackedBarChartSVG series_four response_options) = Inr [[None]]"
  by code_simp

text \<open>
  C5, as the code has it. An x, y or z accessor that throws makes the builder fail:
  it returns no node. A title accessor has no effect on the result, whatever it
  does: the builder never calls it. An empty category domain is no error: for empty
  data, with the height and the two domains omitted, the builder returns a node
  with no group whose height is the top margin plus the bottom margin. (The scale
  type and the axis format are the defaults.)
\<close>

theorem accessor_failure_and_empty_domain:
  "(throws (o_x opts) data \<or> throws (o_y opts) data \<or> throws (o_z opts) data
      \<longrightarrow> isl (StackedBarChartSVG data opts))
   \<and> StackedBarChartSVG data (opts\<lparr>o_title := t\<rparr>) = StackedBarChartSVG data opts
   \<and> (o_height opts = None \<and> o_yDomain opts = None \<and> o_zDomain opts = None
      \<longrightarrow> (\<exists>art. StackedBarChartSVG [] opts = Inr art
            \<and> svg_viewBox art = (0, 0, o_width opts, o_marginTop opts + o_marginBottom opts)
            \<and> svg_groups art = []))"
proof -
  have "chart_layout data (opts\<lparr>o_title := t\<rparr>) = chart_layout data opts"
    by (simp add: chart_layout_def Let_def split: sum.splits cong: option.case_cong)
  moreover have "render (opts\<lparr>o_title := t\<rparr>) L = render opts L" for L
    by (simp add: render_def resolve_xRange_def Let_def split: sum.splits cong: option.case_cong)
  ultimately have "StackedBarChartSVG data (opts\<lparr>o_title := t\<rparr>) = StackedBarChartSVG data opts"
    by (simp add: StackedBarChartSVG_def split: sum.splits)
  with builder_throws [of opts data] builder_empty [of opts] show ?thesis by blast
qed

theorem accessor_failure_and_empty_domain_witness:
  "throws missing_q scenario1
   \<and> isl (StackedBarChartSVG scenario1 (default_options missing_q by_cat by_ser))
   \<and> throws missing_title scenario1
   \<and> StackedBarChartSVG scenario1 (response_options\<lparr>o_title := Some missing_title\<rparr>)
       = StackedBarChartSVG scenario1 response_options
   \<and> \<not> isl (StackedBarChartSVG scenario1 response_options)
   \<and> (\<exists>art. StackedBarChartSVG [] response_options = Inr art
            \<and> svg_viewBox art = (0, 0, 640, 30 + 0) \<and> svg_groups art = [])"
proof -
  have t: "throws (o_x (default_options missing_q by_cat by_ser)) scenario1"
    by (auto simp: throws_def default_options_def missing_q_def scenario1_def intro: exI [of _ 0])
  have o: "o_height response_options = None \<and> o_yDomain response_options = None
           \<and> o_zDomain response_options = None"
    by (simp add: response_options_def default_options_def)
  have v: "o_width response_options = 640" "o_marginTop response_options = 30"
    "o_marginBottom response_options = 0"
    by (simp_all add: response_options_def default_options_def)
  have m: "throws missing_q scenario1"
    using t by (simp add: default_options_def)
  have mt: "throws missing_title scenario1"
    by (auto simp: throws_def missing_title_def scenario1_def intro: exI [of _ 0])
  from accessor_failure_and_empty_domain [of "default_options missing_q by_cat by_ser" scenario1] t
  have 1: "isl (StackedBarChartSVG scenario1 (default_options missing_q by_cat by_ser))"
    by blast
  from accessor_failure_and_empty_domain [of response_options scenario1 "Some missing_title"]
  have 2: "StackedBarChartSVG scenario1 (response_options\<lparr>o_title := Some missing_title\<rparr>)
           = StackedBarChartSVG scenario1 response_options"
    by blast
  from accessor_failure_and_empty_domain [of response_options "[]"] o
  have 3: "\<exists>art. StackedBarChartSVG [] response_options = Inr art
            \<and> svg_viewBox art = (0, 0, 640, 30 + 0) \<and> svg_groups art = []"
    unfolding v by blast
  have 4: "\<not> isl (StackedBarChartSVG scenario1 response_options)" by code_simp
  from m mt 1 2 3 4 show ?thesis by blast
qed

theorem empty_data_no_error:
  "StackedBarChartSVG [] response_options
   = Inr \<lparr>svg_viewBox = (0, 0, 640, 30), svg_groups = [],
          svg_xAxis_translate = (0, 30), svg_yAxis_translate = (NaN, 0)\<rparr>"
  by code_simp

text \<open>
  C6. When no accessor throws, then for every kept record (a record whose category
  and series value are in the domains), however many kept records share its
  category and series value, the builder returns a node that has exactly one
  rectangle for that pair. The rectangle refers to one record of the pair, and the
  quantities of the pair are not added up: whatever the stack order, the segment ends
  at its start plus the quantity of that one record, as the stack offset scales it
  (unchanged for stackOffsetNone; for stackOffsetExpand divided by the total of the
  row when that is not zero, a total that counts one quantity per series value).
\<close>

theorem one_segment_per_pair:
  fixes L :: "'y layout"
  assumes "chart_layout data opts = Inr L"
    and "i \<in> set (l_I L)"
  shows "\<exists>art r i0. StackedBarChartSVG data opts = Inr art
           \<and> segments_of art (l_Y L ! i) (l_Z L ! i) = [r]
           \<and> pt_i (r_datum r) = Some i0 \<and> i0 \<in> set (l_I L)
           \<and> l_Y L ! i0 = l_Y L ! i \<and> l_Z L ! i0 = l_Z L ! i
           \<and> pt_x2 (r_datum r)
               = js_add (offset_value (o_offset opts) (row_total L (l_Y L ! i)) (l_X L ! i0))
                        (pt_x1 (r_datum r))"
proof -
  note L = assms(1)
  have "l_I L \<noteq> []" using assms(2) by auto
  with builder_returns [OF L] obtain art :: "'y svg" where
    a: "StackedBarChartSVG data opts = Inr art"
    by blast
  from L assms(2) obtain k j where k: "k < length (l_zDomain L)" "l_zDomain L ! k = l_Z L ! i"
    and j: "j < length (rollup_rows L)" "fst (rollup_rows L ! j) = l_Y L ! i"
    by (rule kept_position)
  define p where "p = s_points (l_series L ! k) ! j"
  define r where "r = draw_rect (xScale_of opts L) (yScale_of opts L) (l_Y L) p"
  have seg: "segments_of art (l_Y L ! i) (l_Z L ! i) = [r]"
    using segments_of_nth [OF a L k(1) j(1)] unfolding k(2) j(2) r_def p_def .
  have rd: "r_datum r = p" by (simp add: r_def draw_rect_def)
  from retained_first [OF L assms(2)] obtain i0 where
    i0: "retained L (l_Y L ! i) (l_Z L ! i) = Some i0" "i0 \<in> set (l_I L)"
    "l_Y L ! i0 = l_Y L ! i" "l_Z L ! i0 = l_Z L ! i"
    by blast
  have pi: "pt_i p = Some i0"
    unfolding p_def layout_point_ref(2) [OF L k(1) j(1)] j(2) k(2) by (rule i0(1))
  have q: "quantity L (l_Y L ! i) (l_Z L ! i) = l_X L ! i0"
    by (simp add: quantity_def i0(1))
  have "pt_x2 p = js_add (offset_value (o_offset opts) (row_total L (l_Y L ! i)) (l_X L ! i0))
                         (pt_x1 p)"
    using layout_point_rel [OF L k(1) j(1)] unfolding p_def j(2) k(2) q .
  with a seg rd pi i0 show ?thesis by auto
qed

theorem one_segment_per_pair_witness:
  "StackedBarChartSVG collision response_options
     = Inr (projr (StackedBarChartSVG collision response_options))
   \<and> chart_layout collision response_options = Inr (projr (chart_layout collision response_options))
   \<and> 1 \<in> set (l_I (projr (chart_layout collision response_options)))
   \<and> l_X (projr (chart_layout collision response_options)) = [Num 3, Num 5, Num 1]
   \<and> row_total (projr (chart_layout collision response_options)) ''A'' = 4
   \<and> (\<exists>r. segments_of (projr (StackedBarChartSVG collision response_options)) ''A'' (Num 1) = [r]
           \<and> pt_i (r_datum r) = Some 0
           \<and> pt_x1 (r_datum r) = Num 0
           \<and> pt_x2 (r_datum r) = Num (3 / 4))"
proof -
  define art where "art = projr (StackedBarChartSVG collision response_options)"
  define L where "L = projr (chart_layout collision response_options)"
  have "\<not> isl (StackedBarChartSVG collision response_options)" by code_simp
  then have a: "StackedBarChartSVG collision response_options = Inr art"
    by (simp add: art_def)
  have "\<not> isl (chart_layout collision response_options)" by code_simp
  then have b: "chart_layout collision response_options = Inr L"
    by (simp add: L_def)
  have c: "1 \<in> set (l_I L)" unfolding L_def by code_simp
  have d: "l_Y L ! 1 = ''A''" "l_Z L ! 1 = Num 1" unfolding L_def by code_simp+
  have e: "o_offset response_options = stackOffsetExpand"
    by (simp add: response_options_def default_options_def)
  have f: "row_total L ''A'' = 4" unfolding L_def by code_simp
  have x: "l_X L = [Num 3, Num 5, Num 1]" unfolding L_def by code_simp
  have v: "offset_value stackOffsetExpand 4 (Num 3) = Num (3 / 4)"
    by (simp add: offset_value_def expanded_def)
  from one_segment_per_pair [OF b c] obtain art' r i0 where
    a': "StackedBarChartSVG collision response_options = Inr art'" and
    r: "segments_of art' ''A'' (Num 1) = [r]" "pt_i (r_datum r) = Some i0"
    "pt_x2 (r_datum r) = js_add (offset_value stackOffsetExpand 4 (l_X L ! i0)) (pt_x1 (r_datum r))"
    unfolding d e f by auto
  have aa: "art' = art" using a a' by simp
  have pi: "pt_i (r_datum (hd (segments_of art ''A'' (Num 1)))) = Some 0"
    unfolding art_def by code_simp
  have x1: "pt_x1 (r_datum (hd (segments_of art ''A'' (Num 1)))) = Num 0"
    unfolding art_def by code_simp
  have i0: "i0 = 0" using pi r(1,2) aa by simp
  have s: "pt_x1 (r_datum r) = Num 0" using x1 r(1) aa by simp
  have "pt_x2 (r_datum r) = Num (3 / 4)"
    using r(3) unfolding i0 x s by (simp add: v)
  with r(1,2) i0 s a b c x f aa show ?thesis unfolding art_def L_def by blast
qed

text \<open>
  C7, as the code has it. When neither the height nor the category range is given,
  the range of the band scale is [height - marginBottom, marginTop], bottom first,
  and d3.scaleBand lays the categories out from the bottom to the top: the first
  category of the resolved domain has the band with the largest pixel coordinate
  (the lowest one), and of any two categories the later one has the band with the
  smaller pixel coordinate (it is higher up), so the last category has the top band.
\<close>

theorem rows_bottom_to_top:
  assumes "chart_layout data opts = Inr L"
    and "o_height opts = None" and "o_yRange opts = None"
  shows "l_yRange L = (l_height L - o_marginBottom opts, o_marginTop opts)
     \<and> (\<forall>i j. i < j \<and> j < length (l_yDomain L) \<longrightarrow>
          (\<exists>a b. band_apply (yScale_of opts L) (Some (l_yDomain L ! i)) = Some a
             \<and> band_apply (yScale_of opts L) (Some (l_yDomain L ! j)) = Some b
             \<and> b < a))"
proof -
  define dm where "dm = l_yDomain L"
  define n :: rat where "n = of_nat (length dm)"
  define mt where "mt = o_marginTop opts"
  define p where "p = min 1 (o_yPadding opts)"
  define step where "step = n * 25 / (n - p)"
  note lb = layout_default_band [OF assms(1-3), folded dm_def mt_def]
  have d: "distinct dm" using lb(4) .
  have "\<exists>a b. band_apply (yScale_of opts L) (Some (dm ! i)) = Some a
             \<and> band_apply (yScale_of opts L) (Some (dm ! j)) = Some b \<and> b < a"
    if ij: "i < j" "j < length dm" for i j
  proof -
    have len: "2 \<le> length dm" "i < length dm" "j < length dm"
      using ij by simp_all
    have n2: "2 \<le> n" unfolding n_def using len(1) by (metis of_nat_numeral of_nat_le_iff)
    have p1: "p \<le> 1" by (simp add: p_def)
    have np: "0 < n - p" using n2 p1 by simp
    have sp: "0 < step" unfolding step_def using n2 np by simp
    have bi: "band_apply (yScale_of opts L) (Some (dm ! i)) = Some (mt + step * of_nat (length dm - 1 - i))"
      and bj: "band_apply (yScale_of opts L) (Some (dm ! j)) = Some (mt + step * of_nat (length dm - 1 - j))"
      unfolding lb(1) step_def n_def p_def
      by (rule band_apply_default [OF d len(1)], rule len)+
    have "length dm - 1 - j < length dm - 1 - i" using ij by simp
    then have "(of_nat (length dm - 1 - j) :: rat) < of_nat (length dm - 1 - i)" by simp
    then have "mt + step * of_nat (length dm - 1 - j) < mt + step * of_nat (length dm - 1 - i)"
      using sp by simp
    with bi bj show ?thesis by simp
  qed
  with lb(3) show ?thesis by (simp add: dm_def mt_def)
qed

theorem rows_bottom_to_top_witness:
  "chart_layout two_rows response_options = Inr (projr (chart_layout two_rows response_options))
   \<and> o_height response_options = None \<and> o_yRange response_options = None
   \<and> l_yDomain (projr (chart_layout two_rows response_options)) = [''A'', ''B'']
   \<and> l_yRange (projr (chart_layout two_rows response_options)) = (80, 30)
   \<and> (\<exists>a b. band_apply (yScale_of response_options (projr (chart_layout two_rows response_options)))
                 (Some ''A'') = Some a
            \<and> band_apply (yScale_of response_options (projr (chart_layout two_rows response_options)))
                 (Some ''B'') = Some b
            \<and> b < a)"
proof -
  define L where "L = projr (chart_layout two_rows response_options)"
  have "\<not> isl (chart_layout two_rows response_options)" by code_simp
  then have a: "chart_layout two_rows response_options = Inr L"
    by (simp add: L_def)
  have b: "o_height response_options = None" "o_yRange response_options = None"
    by (simp_all add: response_options_def default_options_def)
  have d: "l_yDomain L = [''A'', ''B'']" unfolding L_def by code_simp
  have h: "l_height L = 80" unfolding L_def by code_simp
  have m: "o_marginTop response_options = 30" "o_marginBottom response_options = 0"
    by (simp_all add: response_options_def default_options_def)
  from rows_bottom_to_top [OF a b]
  have r: "l_yRange L = (80, 30)"
    and "\<forall>i j. i < j \<and> j < length (l_yDomain L) \<longrightarrow>
          (\<exists>a b. band_apply (yScale_of response_options L) (Some (l_yDomain L ! i)) = Some a
             \<and> band_apply (yScale_of response_options L) (Some (l_yDomain L ! j)) = Some b
             \<and> b < a)"
    unfolding h m by simp_all
  from this(2) [rule_format, of 0 1]
  have "\<exists>a b. band_apply (yScale_of response_options L) (Some ''A'') = Some a
            \<and> band_apply (yScale_of response_options L) (Some ''B'') = Some b \<and> b < a"
    unfolding d by simp
  with a b d r show ?thesis unfolding L_def by blast
qed

theorem first_category_at_bottom:
  "rect_ys (StackedBarChartSVG two_rows response_options) = Inr [[Some (1070 / 19), Some 30]]"
  by code_simp

text \<open>
  C8. For every severity level, message and contains-sensitive-data flag: when the
  flag is set the console is left as it was (no sink receives the message); when it
  is not set, the message goes to exactly one sink, the one of its level: the error
  sink for Error, the info sink for Info, the debug sink for Verbose and the warning
  sink for Warning.
\<close>

theorem loggerCallback_routes:
  "loggerCallback level message True out = out
   \<and> loggerCallback Error message False out = out @ [(console_error, message)]
   \<and> loggerCallback Info message False out = out @ [(console_info, message)]
   \<and> loggerCallback Verbose message False out = out @ [(console_debug, message)]
   \<and> loggerCallback Warning message False out = out @ [(console_warn, message)]"
  by (simp add: loggerCallback_def)

theorem loggerCallback_routes_witness:
  "loggerCallback Trace ''token acquired'' True [] = []
   \<and> loggerCallback Error ''token acquired'' False [] = [(console_error, ''token acquired'')]
   \<and> loggerCallback Info ''token acquired'' False [] = [(console_info, ''token acquired'')]
   \<and> loggerCallback Verbose ''token acquired'' False [] = [(console_debug, ''token acquired'')]
   \<and> loggerCallback Warning ''token acquired'' False [] = [(console_warn, ''token acquired'')]"
  using loggerCallback_routes [of Trace "''token acquired''" "[]"] by simp

text \<open>
  C9. The rectangle of a category and a series value refers to the first kept record
  of that pair: its index is at most the index of every kept record with the same
  category and series value. The quantity of the segment is the quantity of that
  first record: it is the magnitude that the stack reads for the segment, and the
  segment ends at its start plus that quantity, as the stack offset scales it
  (stackOffsetExpand divides it by the total of the row when that is not zero).
\<close>

theorem first_record_wins:
  fixes L :: "'y layout" and art :: "'y svg"
  assumes "StackedBarChartSVG data opts = Inr art"
    and "chart_layout data opts = Inr L"
    and "g \<in> set (svg_groups art)" and "r \<in> set (g_rects g)"
    and "i \<in> set (l_I L)"
    and "l_Y L ! i = fst (pt_data (r_datum r))" and "l_Z L ! i = g_key g"
  shows "\<exists>i0. pt_i (r_datum r) = Some i0 \<and> i0 \<le> i \<and> i0 \<in> set (l_I L)
           \<and> l_Y L ! i0 = l_Y L ! i \<and> l_Z L ! i0 = l_Z L ! i
           \<and> stack_value (l_X L) (pt_data (r_datum r)) (g_key g) = l_X L ! i0
           \<and> pt_x2 (r_datum r)
               = js_add (offset_value (o_offset opts) (row_total L (l_Y L ! i)) (l_X L ! i0))
                        (pt_x1 (r_datum r))"
proof -
  note a = assms(1) and L = assms(2)
  from assms(3) obtain k where k: "k < length (svg_groups art)" "g = svg_groups art ! k"
    by (auto simp: in_set_conv_nth)
  have kz: "k < length (l_zDomain L)"
    using k(1) arg_cong [OF group_keys [OF a L], of length] by simp
  have gk: "g_key g = l_zDomain L ! k"
    and rs: "g_rects g = map (draw_rect (xScale_of opts L) (yScale_of opts L) (l_Y L))
                             (s_points (l_series L ! k))"
    unfolding k(2) by (rule group_nth(2,3) [OF a L kz])+
  from assms(4) obtain j where j: "j < length (g_rects g)" "r = g_rects g ! j"
    by (auto simp: in_set_conv_nth)
  have jr: "j < length (rollup_rows L)"
    using j(1) unfolding rs by (simp add: series_nth(4) [OF L kz])
  define p where "p = s_points (l_series L ! k) ! j"
  have rd: "r_datum r = p"
    unfolding j(2) rs p_def using jr by (simp add: series_nth(4) [OF L kz] draw_rect_def)
  have pd: "pt_data p = rollup_rows L ! j"
    and pi: "pt_i p = retained L (fst (rollup_rows L ! j)) (l_zDomain L ! k)"
    unfolding p_def by (rule layout_point_ref [OF L kz jr])+
  have c: "fst (rollup_rows L ! j) = l_Y L ! i" using assms(6) rd pd by simp
  have z: "l_zDomain L ! k = l_Z L ! i" using assms(7) gk by simp
  from retained_first [OF L assms(5)] obtain i0 where
    i0: "retained L (l_Y L ! i) (l_Z L ! i) = Some i0" "i0 \<le> i" "i0 \<in> set (l_I L)"
    "l_Y L ! i0 = l_Y L ! i" "l_Z L ! i0 = l_Z L ! i"
    by blast
  have q: "quantity L (l_Y L ! i) (l_Z L ! i) = l_X L ! i0"
    by (simp add: quantity_def i0(1))
  have "pt_data p \<in> set (rollup_rows L)" unfolding pd using jr by simp
  from stack_value_quantity [OF L this, of "g_key g"]
  have sv: "stack_value (l_X L) (pt_data p) (g_key g) = l_X L ! i0"
    unfolding pd c gk z by (simp add: q)
  have x: "pt_x2 p = js_add (offset_value (o_offset opts) (row_total L (l_Y L ! i)) (l_X L ! i0))
                            (pt_x1 p)"
    using layout_point_rel [OF L kz jr] unfolding p_def c z q .
  have "pt_i p = Some i0" unfolding pi c z by (rule i0(1))
  with sv x i0 rd show ?thesis by auto
qed

theorem first_record_wins_witness:
  "StackedBarChartSVG collision response_options
     = Inr (projr (StackedBarChartSVG collision response_options))
   \<and> chart_layout collision response_options = Inr (projr (chart_layout collision response_options))
   \<and> 1 \<in> set (l_I (projr (chart_layout collision response_options)))
   \<and> l_X (projr (chart_layout collision response_options)) = [Num 3, Num 5, Num 1]
   \<and> pt_i (r_datum (hd (g_rects (hd (svg_groups (projr (StackedBarChartSVG collision response_options)))))))
       = Some 0
   \<and> stack_value (l_X (projr (chart_layout collision response_options)))
        (pt_data (r_datum (hd (g_rects (hd (svg_groups (projr (StackedBarChartSVG collision response_options)))))))) (Num 1)
       = Num 3
   \<and> pt_x1 (r_datum (hd (g_rects (hd (svg_groups (projr (StackedBarChartSVG collision response_options)))))))
       = Num 0
   \<and> pt_x2 (r_datum (hd (g_rects (hd (svg_groups (projr (StackedBarChartSVG collision response_options)))))))
       = Num (3 / 4)"
proof -
  define art where "art = projr (StackedBarChartSVG collision response_options)"
  define L where "L = projr (chart_layout collision response_options)"
  define g where "g = hd (svg_groups art)"
  define r where "r = hd (g_rects g)"
  have "\<not> isl (StackedBarChartSVG collision response_options)" by code_simp
  then have a: "StackedBarChartSVG collision response_options = Inr art"
    by (simp add: art_def)
  have "\<not> isl (chart_layout collision response_options)" by code_simp
  then have b: "chart_layout collision response_options = Inr L"
    by (simp add: L_def)
  have c: "g \<in> set (svg_groups art)" unfolding g_def art_def by code_simp
  have d: "r \<in> set (g_rects g)" unfolding r_def g_def art_def by code_simp
  have e: "1 \<in> set (l_I L)" unfolding L_def by code_simp
  have y: "l_Y L ! 1 = ''A''" unfolding L_def by code_simp
  have f: "l_Y L ! 1 = fst (pt_data (r_datum r))" unfolding L_def r_def g_def art_def by code_simp
  have h: "l_Z L ! 1 = g_key g" unfolding L_def g_def art_def by code_simp
  have k: "g_key g = Num 1" unfolding g_def art_def by code_simp
  have x: "l_X L = [Num 3, Num 5, Num 1]" unfolding L_def by code_simp
  have t: "row_total L ''A'' = 4" unfolding L_def by code_simp
  have o: "o_offset response_options = stackOffsetExpand"
    by (simp add: response_options_def default_options_def)
  have v: "offset_value stackOffsetExpand 4 (Num 3) = Num (3 / 4)"
    by (simp add: offset_value_def expanded_def)
  have pi: "pt_i (r_datum r) = Some 0" unfolding r_def g_def art_def by code_simp
  have x1: "pt_x1 (r_datum r) = Num 0" unfolding r_def g_def art_def by code_simp
  from first_record_wins [OF a b c d e f h] obtain i0 where
    i0: "pt_i (r_datum r) = Some i0"
    "stack_value (l_X L) (pt_data (r_datum r)) (g_key g) = l_X L ! i0"
    "pt_x2 (r_datum r) = js_add (offset_value stackOffsetExpand 4 (l_X L ! i0)) (pt_x1 (r_datum r))"
    unfolding y t o by blast
  from i0(1) pi have z: "i0 = 0" by simp
  with i0(2) have s: "stack_value (l_X L) (pt_data (r_datum r)) (Num 1) = Num 3"
    unfolding k x by simp
  have "pt_x2 (r_datum r) = Num (3 / 4)"
    using i0(3) unfolding z x x1 by (simp add: v)
  with a b e x pi s x1 show ?thesis unfolding r_def g_def art_def L_def by blast
qed

text \<open>
  C10, as the code has it. For every rectangle, whatever the domain and the range
  of the quantitative scale, x is Math.min of the two mapped boundaries of its
  segment and the width is Math.abs of their difference. The width is NaN exactly when
  a mapped boundary is NaN (or undefined), and a number that is not negative
  otherwise. The images of a group have, position by position, the x, y, width and
  height of its rectangles.
\<close>

theorem rect_and_image_attributes:
  assumes "StackedBarChartSVG data opts = Inr (art :: 'y svg)"
    and "chart_layout data opts = Inr L"
    and "g \<in> set (svg_groups art)"
    and "r \<in> set (g_rects g)"
  shows "r_x r = Math_min (xScale_of opts L (pt_x1 (r_datum r))) (xScale_of opts L (pt_x2 (r_datum r)))
     \<and> r_width r = Math_abs (js_sub (xScale_of opts L (pt_x1 (r_datum r)))
                                   (xScale_of opts L (pt_x2 (r_datum r))))
     \<and> (r_width r = NaN \<or> (\<exists>w. r_width r = Num w \<and> 0 \<le> w))
     \<and> (r_width r = NaN \<longleftrightarrow> xScale_of opts L (pt_x1 (r_datum r)) = NaN
                              \<or> xScale_of opts L (pt_x2 (r_datum r)) = NaN)
     \<and> map (\<lambda>im. (i_x im, i_y im, i_width im, i_height im)) (g_images g)
       = map (\<lambda>r. (r_x r, r_y r, r_width r, r_height r)) (g_rects g)"
proof -
  from assms(1-3) obtain s :: "'y series" where
    rs: "g_rects g = map (draw_rect (xScale_of opts L) (yScale_of opts L) (l_Y L)) (s_points s)"
    and im: "g_images g = map (draw_image (xScale_of opts L) (yScale_of opts L) (l_Y L) (l_Z L)) (s_points s)"
    by (rule group_of_series)
  from assms(4) rs obtain d where r: "r = draw_rect (xScale_of opts L) (yScale_of opts L) (l_Y L) d"
    by auto
  have "map (\<lambda>im. (i_x im, i_y im, i_width im, i_height im)) (g_images g)
       = map (\<lambda>r. (r_x r, r_y r, r_width r, r_height r)) (g_rects g)"
    unfolding rs im by (simp add: draw_rect_def draw_image_def)
  then show ?thesis
    using Math_abs_cases [of "js_sub (xScale_of opts L (pt_x1 d)) (xScale_of opts L (pt_x2 d))"]
    by (simp add: r draw_rect_def Math_abs_NaN)
qed

theorem rect_and_image_attributes_witness:
  "StackedBarChartSVG scenario1 reversed_range = Inr (projr (StackedBarChartSVG scenario1 reversed_range))
   \<and> chart_layout scenario1 reversed_range = Inr (projr (chart_layout scenario1 reversed_range))
   \<and> hd (svg_groups (projr (StackedBarChartSVG scenario1 reversed_range)))
       \<in> set (svg_groups (projr (StackedBarChartSVG scenario1 reversed_range)))
   \<and> hd (g_rects (hd (svg_groups (projr (StackedBarChartSVG scenario1 reversed_range)))))
       \<in> set (g_rects (hd (svg_groups (projr (StackedBarChartSVG scenario1 reversed_range)))))
   \<and> r_x (hd (g_rects (hd (svg_groups (projr (StackedBarChartSVG scenario1 reversed_range)))))) = Num 305
   \<and> r_width (hd (g_rects (hd (svg_groups (projr (StackedBarChartSVG scenario1 reversed_range)))))) = Num 315
   \<and> map (\<lambda>im. (i_x im, i_y im, i_width im, i_height im))
         (g_images (hd (svg_groups (projr (StackedBarChartSVG scenario1 reversed_range)))))
       = [(Num 305, Some (125 / 4), Num 315, 45 / 2)]"
proof -
  define art where "art = projr (StackedBarChartSVG scenario1 reversed_range)"
  define L where "L = projr (chart_layout scenario1 reversed_range)"
  define g where "g = hd (svg_groups art)"
  define r where "r = hd (g_rects g)"
  have "\<not> isl (StackedBarChartSVG scenario1 reversed_range)" by code_simp
  then have a: "StackedBarChartSVG scenario1 reversed_range = Inr art"
    by (simp add: art_def)
  have "\<not> isl (chart_layout scenario1 reversed_range)" by code_simp
  then have b: "chart_layout scenario1 reversed_range = Inr L"
    by (simp add: L_def)
  have c: "g \<in> set (svg_groups art)" unfolding g_def art_def by code_simp
  have d: "r \<in> set (g_rects g)" unfolding r_def g_def art_def by code_simp
  have e: "xScale_of reversed_range L (pt_x1 (r_datum r)) = Num 620"
    "xScale_of reversed_range L (pt_x2 (r_datum r)) = Num 305"
    unfolding r_def g_def art_def L_def by code_simp+
  have f: "map (\<lambda>r. (r_x r, r_y r, r_width r, r_height r)) (g_rects g)
           = [(Num 305, Some (125 / 4), Num 315, 45 / 2)]"
    unfolding g_def art_def by code_simp
  from rect_and_image_attributes [OF a b c d]
  have "r_x r = Num 305 \<and> r_width r = Num 315
        \<and> map (\<lambda>im. (i_x im, i_y im, i_width im, i_height im)) (g_images g)
          = [(Num 305, Some (125 / 4), Num 315, 45 / 2)]"
    unfolding e f by simp
  with a b c d show ?thesis
    unfolding r_def g_def art_def L_def by blast
qed

theorem missing_segment_width_NaN:
  "rect_widths (StackedBarChartSVG sparse_rows response_options)
   = Inr [[Num 420, NaN], [NaN, Num 420]]"
  by code_simp

end
